theory Spec2Isabelle
  imports Main "HOL-Library.Word" "HOL-Library.Sublist"
begin

section \<open>Bytes, hashes and errors\<close>

type_synonym byte = "8 word"
type_synonym bytes = "byte list"
type_synonym uint64 = "64 word"

text \<open>
  \<open>common.Hash\<close> is the Go array type \<open>[32]byte\<close>: a byte sequence whose length is 32 by
  type. \<open>hash_bytes\<close> is \<open>h.Bytes()\<close> (and \<open>h[:]\<close>); \<open>mk_hash\<close> is the conversion
  \<open>common.Hash(b)\<close> of a slice of length 32.
\<close>

typedef Hash = "{bs :: byte list. length bs = 32}"
  morphisms hash_bytes mk_hash
  by (rule exI [of _ "replicate 32 0"]) simp

text \<open>
  Go errors. \<open>ErrNotFound\<close> is the sentinel \<open>kvstore.ErrNotFound\<close>. \<open>ErrExternal\<close> stands for
  an error value made by a collaborator (the upstream clients, the file system, the hex
  decoders, the precompile). \<open>Errorf f w\<close> is \<open>fmt.Errorf(f, ...)\<close>: \<open>f\<close> is the format
  string (the formatted arguments are not kept) and \<open>w\<close> the error wrapped by \<open>%w\<close>, if the
  format has one and the argument is not nil.
\<close>

datatype error = ErrNotFound | ErrExternal string | Errorf string "error option"

text \<open>\<open>errors.Is(err, target)\<close>: equality, or the same for what \<open>err\<close> wraps.\<close>

fun errors_Is :: "error \<Rightarrow> error \<Rightarrow> bool" where
  "errors_Is ErrNotFound t = (t = ErrNotFound)"
| "errors_Is (ErrExternal m) t = (t = ErrExternal m)"
| "errors_Is (Errorf f None) t = (t = Errorf f None)"
| "errors_Is (Errorf f (Some e)) t = (t = Errorf f (Some e) \<or> errors_Is e t)"

section \<open>Library functions the program calls\<close>

text \<open>\<open>strings.Cut(s, " ")\<close>: the text before and after the first space, if there is one.\<close>

fun strings_Cut :: "string \<Rightarrow> (string \<times> string) option" where
  "strings_Cut [] = None"
| "strings_Cut (c # cs) =
     (if c = CHR '' '' then Some ([], cs)
      else (case strings_Cut cs of None \<Rightarrow> None | Some (b, a) \<Rightarrow> Some (c # b, a)))"

text \<open>\<open>strings.Contains(s, substr)\<close>: \<open>substr\<close> occurs somewhere in \<open>s\<close>.\<close>

fun strings_Contains :: "string \<Rightarrow> string \<Rightarrow> bool" where
  "strings_Contains [] sub = (sub = [])"
| "strings_Contains (c # cs) sub = (prefix sub (c # cs) \<or> strings_Contains cs sub)"

text \<open>The value of a hexadecimal digit (\<open>encoding/hex\<close> accepts both cases).\<close>

definition fromHexChar :: "char \<Rightarrow> byte option" where
  "fromHexChar c =
     (let n = (of_char c :: nat) in
      if 48 \<le> n \<and> n \<le> 57 then Some (of_nat (n - 48))
      else if 97 \<le> n \<and> n \<le> 102 then Some (of_nat (n - 87))
      else if 65 \<le> n \<and> n \<le> 70 then Some (of_nat (n - 55))
      else None)"

text \<open>
  \<open>hex.DecodeString\<close>: two digits per byte; an invalid digit or an odd length is an error
  (an invalid digit is reported before a bad length).
\<close>

fun hex_DecodeString :: "string \<Rightarrow> error + bytes" where
  "hex_DecodeString [] = Inr []"
| "hex_DecodeString [p] =
     (case fromHexChar p of
        None \<Rightarrow> Inl (ErrExternal ''encoding/hex: invalid byte'')
      | Some a \<Rightarrow> Inl (ErrExternal ''encoding/hex: odd length hex string''))"
| "hex_DecodeString (p # q # rest) =
     (case fromHexChar p of
        None \<Rightarrow> Inl (ErrExternal ''encoding/hex: invalid byte'')
      | Some a \<Rightarrow>
         (case fromHexChar q of
            None \<Rightarrow> Inl (ErrExternal ''encoding/hex: invalid byte'')
          | Some b \<Rightarrow>
             (case hex_DecodeString rest of
                Inl e \<Rightarrow> Inl e
              | Inr bs \<Rightarrow> Inr (or (push_bit 4 a) b # bs))))"

text \<open>
  \<open>hexutil.Decode\<close> (go-ethereum): the input must be non-empty and start with \<open>0x\<close> or
  \<open>0X\<close>; the rest is decoded by \<open>hex.DecodeString\<close>.
\<close>

definition hexutil_Decode :: "string \<Rightarrow> error + bytes" where
  "hexutil_Decode input =
     (if input = [] then Inl (ErrExternal ''empty hex string'')
      else if \<not> (2 \<le> length input \<and> input ! 0 = CHR ''0''
                 \<and> (input ! 1 = CHR ''x'' \<or> input ! 1 = CHR ''X''))
      then Inl (ErrExternal ''hex string without 0x prefix'')
      else hex_DecodeString (drop 2 input))"

text \<open>\<open>binary.BigEndian.Uint64(b)\<close> reads the first eight bytes of \<open>b\<close>.\<close>

definition BigEndian_Uint64 :: "bytes \<Rightarrow> uint64" where
  "BigEndian_Uint64 b =
     foldl (\<lambda>acc x. or (push_bit 8 acc) (ucast x)) 0 (take 8 b)"

text \<open>The eight bytes \<open>binary.BigEndian.PutUint64\<close> writes, most significant first.\<close>

definition u64_be :: "uint64 \<Rightarrow> bytes" where
  "u64_be v =
     [ucast (drop_bit 56 v), ucast (drop_bit 48 v), ucast (drop_bit 40 v),
      ucast (drop_bit 32 v), ucast (drop_bit 24 v), ucast (drop_bit 16 v),
      ucast (drop_bit 8 v), ucast v]"

text \<open>
  \<open>binary.BigEndian.PutUint64(b[off:], v)\<close> on a slice \<open>b\<close> with at least \<open>off + 8\<close> bytes:
  the eight bytes from \<open>off\<close> are overwritten in place.
\<close>

definition BigEndian_PutUint64 :: "bytes \<Rightarrow> nat \<Rightarrow> uint64 \<Rightarrow> bytes" where
  "BigEndian_PutUint64 b off v = take off b @ u64_be v @ drop (off + 8) b"

text \<open>
  \<open>copy(dst[:n], src)\<close> on a slice \<open>dst\<close> with at least \<open>n\<close> elements: the first
  \<open>min n (len src)\<close> elements are overwritten.
\<close>

definition copy_into :: "bytes \<Rightarrow> nat \<Rightarrow> bytes \<Rightarrow> bytes" where
  "copy_into dst n src = take n src @ drop (min n (length src)) dst"

section \<open>The preimage key scheme\<close>

text \<open>
  Modelled from the spec: the package \<open>op-preimage\<close> (\<open>Keccak256Key\<close>, \<open>Sha256Key\<close>,
  \<open>BlobKey\<close>, \<open>KZGPointEvaluationKey\<close>, \<open>LocalIndexKey\<close> and their \<open>PreimageKey\<close> methods)
  is not among the sources. The spec's key scheme: a storage key is a digest whose first
  byte is overwritten by the type tag; tag 1 is Local, 2 Keccak256, 3 Sha256, 4 Blob field
  element, 6 KZG point-evaluation result; a local key is the tag followed by the 31-byte
  big-endian index.
\<close>

definition PreimageKey :: "byte \<Rightarrow> Hash \<Rightarrow> Hash" where
  "PreimageKey tag h = mk_hash (tag # tl (hash_bytes h))"

definition LocalKeyType :: byte where "LocalKeyType = 1"
definition Keccak256KeyType :: byte where "Keccak256KeyType = 2"
definition Sha256KeyType :: byte where "Sha256KeyType = 3"
definition BlobKeyType :: byte where "BlobKeyType = 4"
definition KZGPointEvaluationKeyType :: byte where "KZGPointEvaluationKeyType = 6"

definition Keccak256Key :: "Hash \<Rightarrow> Hash" where
  "Keccak256Key h = PreimageKey Keccak256KeyType h"

definition Sha256Key :: "Hash \<Rightarrow> Hash" where
  "Sha256Key h = PreimageKey Sha256KeyType h"

definition BlobKey :: "Hash \<Rightarrow> Hash" where
  "BlobKey h = PreimageKey BlobKeyType h"

definition KZGPointEvaluationKey :: "Hash \<Rightarrow> Hash" where
  "KZGPointEvaluationKey h = PreimageKey KZGPointEvaluationKeyType h"

definition LocalIndexKey :: "uint64 \<Rightarrow> Hash" where
  "LocalIndexKey i = mk_hash (LocalKeyType # replicate 23 0 @ u64_be i)"

text \<open>The tag of a key is its first byte.\<close>

definition key_tag :: "Hash \<Rightarrow> byte" where
  "key_tag k = hd (hash_bytes k)"

text \<open>
  Modelled from the spec: the hint type strings of the package \<open>op-program/client/l1\<close>,
  which is not among the sources.
\<close>

definition HintL1BlockHeader :: string where "HintL1BlockHeader = ''l1-block-header''"
definition HintL1Transactions :: string where "HintL1Transactions = ''l1-transactions''"
definition HintL1Receipts :: string where "HintL1Receipts = ''l1-receipts''"
definition HintL1Blob :: string where "HintL1Blob = ''l1-blob''"
definition HintL1KZGPointEvaluation :: string where
  "HintL1KZGPointEvaluation = ''l1-kzg-point-evaluation''"

text \<open>\<open>params.BlobTxFieldElementsPerBlob\<close> (go-ethereum): a blob has 4096 field elements.\<close>

definition BlobTxFieldElementsPerBlob :: nat where
  "BlobTxFieldElementsPerBlob = 4096"

section \<open>The local preimage source\<close>

text \<open>
  Modelled from the spec: \<open>client.L1HeadLocalIndex\<close> is declared outside the sources; by the
  spec the L1 head has local index 1.
\<close>

definition L1HeadLocalIndex :: uint64 where "L1HeadLocalIndex = 1"

record Config =
  L1Head :: Hash

definition l1HeadKey :: Hash where
  "l1HeadKey = LocalIndexKey L1HeadLocalIndex"

definition LocalPreimageSource_Get :: "Config \<Rightarrow> Hash \<Rightarrow> error + bytes" where
  "LocalPreimageSource_Get config key =
     (if key = l1HeadKey then Inr (hash_bytes (L1Head config)) else Inl ErrNotFound)"

section \<open>The wire format of hints\<close>

definition parseHint :: "string \<Rightarrow> error + (string \<times> bytes)" where
  "parseHint hint =
     (case strings_Cut hint of
        None \<Rightarrow> Inl (Errorf ''unsupported hint: %s'' None)
      | Some (hintType, bytesStr) \<Rightarrow>
         (case hexutil_Decode bytesStr of
            Inl e \<Rightarrow> Inl (Errorf ''invalid bytes: %s'' None)
          | Inr hintBytes \<Rightarrow> Inr (hintType, hintBytes)))"

section \<open>The key-value store and the upstream sources\<close>

text \<open>
  \<open>kvstore.KV\<close> is an interface (\<open>Get\<close> and \<open>Put\<close>); its implementations are not among the
  sources. A store is a state \<open>'s\<close> with the two operations: \<open>Get\<close> returns the value or an
  error, \<open>Put\<close> returns the state after the call and the error, if any. Values are passed by
  value (the spec's store owns its buffers).
\<close>

record 's KV =
  Get :: "'s \<Rightarrow> Hash \<Rightarrow> error + bytes"
  Put :: "'s \<Rightarrow> Hash \<Rightarrow> bytes \<Rightarrow> 's \<times> error option"

typedecl BlockInfo
typedecl Transaction
typedecl Receipt

text \<open>
  \<open>eth.BlobSidecar\<close>, the two fields the prefetcher reads: \<open>KZGCommitment\<close> is a
  \<open>[48]byte\<close> and \<open>Blob\<close> a \<open>[131072]byte\<close>.
\<close>

record BlobSidecar =
  KZGCommitment :: bytes
  Blob :: bytes

definition sidecar_wf :: "BlobSidecar \<Rightarrow> bool" where
  "sidecar_wf sc \<longleftrightarrow> length (KZGCommitment sc) = 48 \<and> length (Blob sc) = 131072"

text \<open>
  The collaborators of a \<open>Prefetcher\<close>, none of them among the sources: the store, the
  (retrying) \<open>L1Source\<close> and \<open>L1BlobSource\<close>, the encoders, \<open>mpt.WriteTrie\<close> (of which only the
  node list is used), \<open>crypto.Keccak256Hash\<close> and the \<open>Run\<close> method of the point-evaluation
  precompile. Each upstream call is a function of its arguments: the same request gets the
  same answer. \<open>GetBlobSidecars\<close> takes the time of the block reference (the only field the
  prefetcher sets) and the indexed blob hashes (hash and index).
\<close>

record 's Deps =
  kvStore :: "'s KV"
  InfoByHash :: "Hash \<Rightarrow> error + BlockInfo"
  HeaderRLP :: "BlockInfo \<Rightarrow> error + bytes"
  InfoAndTxsByHash :: "Hash \<Rightarrow> error + (BlockInfo \<times> Transaction list)"
  FetchReceipts :: "Hash \<Rightarrow> error + (BlockInfo \<times> Receipt list)"
  EncodeTransactions :: "Transaction list \<Rightarrow> error + bytes list"
  EncodeReceipts :: "Receipt list \<Rightarrow> error + bytes list"
  WriteTrie :: "bytes list \<Rightarrow> bytes list"
  GetBlobSidecars :: "uint64 \<Rightarrow> (Hash \<times> uint64) list \<Rightarrow> error + BlobSidecar list"
  Keccak256Hash :: "bytes \<Rightarrow> Hash"
  KZGPointEvaluation_Run :: "bytes \<Rightarrow> error + bytes"

text \<open>The mutable part of a \<open>Prefetcher\<close>: the last hint and the contents of its store.\<close>

record 's Prefetcher =
  lastHint :: string
  store :: 's

section \<open>The prefetcher\<close>

definition kzgPointEvaluationSuccess :: bytes where "kzgPointEvaluationSuccess = [1]"
definition kzgPointEvaluationFailure :: bytes where "kzgPointEvaluationFailure = [0]"

definition Hint :: "'s Prefetcher \<Rightarrow> string \<Rightarrow> 's Prefetcher \<times> error option" where
  "Hint p hint = (p\<lparr>lastHint := hint\<rparr>, None)"

text \<open>The loop of \<open>storeTrieNodes\<close> over the nodes.\<close>

fun storeTrieNodes_loop :: "'s Deps \<Rightarrow> 's \<Rightarrow> bytes list \<Rightarrow> 's \<times> error option" where
  "storeTrieNodes_loop d s [] = (s, None)"
| "storeTrieNodes_loop d s (node # nodes) =
     (case Put (kvStore d) s (Keccak256Key (Keccak256Hash d node)) node of
        (s', Some e) \<Rightarrow> (s', Some (Errorf ''failed to store node: %w'' (Some e)))
      | (s', None) \<Rightarrow> storeTrieNodes_loop d s' nodes)"

definition storeTrieNodes :: "'s Deps \<Rightarrow> 's \<Rightarrow> bytes list \<Rightarrow> 's \<times> error option" where
  "storeTrieNodes d s values = storeTrieNodes_loop d s (WriteTrie d values)"

definition storeReceipts :: "'s Deps \<Rightarrow> 's \<Rightarrow> Receipt list \<Rightarrow> 's \<times> error option" where
  "storeReceipts d s receipts =
     (case EncodeReceipts d receipts of
        Inl e \<Rightarrow> (s, Some e)
      | Inr opaqueReceipts \<Rightarrow> storeTrieNodes d s opaqueReceipts)"

definition storeTransactions :: "'s Deps \<Rightarrow> 's \<Rightarrow> Transaction list \<Rightarrow> 's \<times> error option" where
  "storeTransactions d s txs =
     (case EncodeTransactions d txs of
        Inl e \<Rightarrow> (s, Some e)
      | Inr opaqueTxs \<Rightarrow> storeTrieNodes d s opaqueTxs)"

text \<open>
  The loop over the field elements in the \<open>HintL1Blob\<close> case, from index \<open>i\<close> on. The
  80-byte \<open>blobKey\<close> is updated in place: its last eight bytes get the index.
\<close>

function blob_loop :: "'s Deps \<Rightarrow> BlobSidecar \<Rightarrow> bytes \<Rightarrow> 's \<Rightarrow> nat \<Rightarrow> 's \<times> error option" where
  "blob_loop d sidecar blobKey s i =
     (if i < BlobTxFieldElementsPerBlob then
        (let blobKey' = BigEndian_PutUint64 blobKey 72 (of_nat i);
             blobKeyHash = Keccak256Hash d blobKey'
         in case Put (kvStore d) s (Keccak256Key blobKeyHash) blobKey' of
              (s1, Some e) \<Rightarrow> (s1, Some e)
            | (s1, None) \<Rightarrow>
               (case Put (kvStore d) s1 (BlobKey blobKeyHash)
                       (take 32 (drop (i * 32) (Blob sidecar))) of
                  (s2, Some e) \<Rightarrow> (s2, Some e)
                | (s2, None) \<Rightarrow> blob_loop d sidecar blobKey' s2 (i + 1)))
      else (s, None))"
  by pat_completeness auto
termination
  by (relation "measure (\<lambda>(d, sidecar, blobKey, s, i). BlobTxFieldElementsPerBlob - i)") auto

declare blob_loop.simps [simp del]

definition prefetch_L1BlockHeader :: "'s Deps \<Rightarrow> 's \<Rightarrow> bytes \<Rightarrow> 's \<times> error option" where
  "prefetch_L1BlockHeader d s hintBytes =
     (if length hintBytes \<noteq> 32 then (s, Some (Errorf ''invalid L1 block hint: %x'' None))
      else
        (let hash = mk_hash hintBytes in
         case InfoByHash d hash of
           Inl e \<Rightarrow> (s, Some (Errorf ''failed to fetch L1 block %s header: %w'' (Some e)))
         | Inr header \<Rightarrow>
            (case HeaderRLP d header of
               Inl e \<Rightarrow> (s, Some (Errorf ''marshall header: %w'' (Some e)))
             | Inr data \<Rightarrow> Put (kvStore d) s (Keccak256Key hash) data)))"

definition prefetch_L1Transactions :: "'s Deps \<Rightarrow> 's \<Rightarrow> bytes \<Rightarrow> 's \<times> error option" where
  "prefetch_L1Transactions d s hintBytes =
     (if length hintBytes \<noteq> 32
      then (s, Some (Errorf ''invalid L1 transactions hint: %x'' None))
      else
        (let hash = mk_hash hintBytes in
         case InfoAndTxsByHash d hash of
           Inl e \<Rightarrow> (s, Some (Errorf ''failed to fetch L1 block %s txs: %w'' (Some e)))
         | Inr (info, txs) \<Rightarrow> storeTransactions d s txs))"

definition prefetch_L1Receipts :: "'s Deps \<Rightarrow> 's \<Rightarrow> bytes \<Rightarrow> 's \<times> error option" where
  "prefetch_L1Receipts d s hintBytes =
     (if length hintBytes \<noteq> 32
      then (s, Some (Errorf ''invalid L1 receipts hint: %x'' None))
      else
        (let hash = mk_hash hintBytes in
         case FetchReceipts d hash of
           Inl e \<Rightarrow> (s, Some (Errorf ''failed to fetch L1 block %s receipts: %w'' (Some e)))
         | Inr (info, receipts) \<Rightarrow> storeReceipts d s receipts))"

text \<open>
  The \<open>HintL1Blob\<close> case. When \<open>GetBlobSidecars\<close> returns no error but not exactly one
  sidecar, the \<open>%w\<close> argument is nil and the error wraps nothing.
\<close>

definition prefetch_L1Blob :: "'s Deps \<Rightarrow> 's \<Rightarrow> bytes \<Rightarrow> 's \<times> error option" where
  "prefetch_L1Blob d s hintBytes =
     (if length hintBytes \<noteq> 48 then (s, Some (Errorf ''invalid blob hint: %x'' None))
      else
        (let blobVersionHash = mk_hash (take 32 hintBytes);
             blobHashIndex = BigEndian_Uint64 (take 8 (drop 32 hintBytes));
             refTimestamp = BigEndian_Uint64 (take 8 (drop 40 hintBytes))
         in case GetBlobSidecars d refTimestamp [(blobVersionHash, blobHashIndex)] of
              Inl e \<Rightarrow>
                (s, Some (Errorf ''failed to fetch blob sidecars for %s %d: %w'' (Some e)))
            | Inr sidecars \<Rightarrow>
               (if length sidecars \<noteq> 1
                then (s, Some (Errorf ''failed to fetch blob sidecars for %s %d: %w'' None))
                else
                  (let sidecar = sidecars ! 0 in
                   case Put (kvStore d) s (Sha256Key blobVersionHash) (KZGCommitment sidecar) of
                     (s', Some e) \<Rightarrow> (s', Some e)
                   | (s', None) \<Rightarrow>
                      (let blobKey = copy_into (replicate 80 0) 48 (KZGCommitment sidecar)
                       in blob_loop d sidecar blobKey s' 0)))))"

definition prefetch_L1KZGPointEvaluation :: "'s Deps \<Rightarrow> 's \<Rightarrow> bytes \<Rightarrow> 's \<times> error option" where
  "prefetch_L1KZGPointEvaluation d s hintBytes =
     (let result = (case KZGPointEvaluation_Run d hintBytes of
                      Inr out \<Rightarrow> kzgPointEvaluationSuccess
                    | Inl e \<Rightarrow> kzgPointEvaluationFailure);
          inputHash = Keccak256Hash d hintBytes
      in case Put (kvStore d) s (Keccak256Key inputHash) hintBytes of
           (s', Some e) \<Rightarrow> (s', Some e)
         | (s', None) \<Rightarrow> Put (kvStore d) s' (KZGPointEvaluationKey inputHash) result)"

text \<open>\<open>Prefetcher.prefetch\<close>: parse the hint, then the \<open>switch\<close> on its type.\<close>

definition prefetch :: "'s Deps \<Rightarrow> 's \<Rightarrow> string \<Rightarrow> 's \<times> error option" where
  "prefetch d s hint =
     (case parseHint hint of
        Inl e \<Rightarrow> (s, Some e)
      | Inr (hintType, hintBytes) \<Rightarrow>
         (if hintType = HintL1BlockHeader then prefetch_L1BlockHeader d s hintBytes
          else if hintType = HintL1Transactions then prefetch_L1Transactions d s hintBytes
          else if hintType = HintL1Receipts then prefetch_L1Receipts d s hintBytes
          else if hintType = HintL1Blob then prefetch_L1Blob d s hintBytes
          else if hintType = HintL1KZGPointEvaluation
          then prefetch_L1KZGPointEvaluation d s hintBytes
          else (s, Some (Errorf ''unknown hint type: %v'' None))))"

text \<open>
  \<open>Prefetcher.GetPreimage\<close>. \<open>r\<close> is the pair \<open>(pre, err)\<close> of the last \<open>Get\<close>. The loop may
  run forever: not returning is the value \<open>None\<close>.
\<close>

definition is_not_found :: "error + bytes \<Rightarrow> bool" where
  "is_not_found r = (case r of Inl e \<Rightarrow> errors_Is e ErrNotFound | Inr pre \<Rightarrow> False)"

partial_function (option) GetPreimage_loop ::
  "'s Deps \<Rightarrow> 's Prefetcher \<Rightarrow> Hash \<Rightarrow> error + bytes \<Rightarrow> ('s Prefetcher \<times> (error + bytes)) option"
where
  "GetPreimage_loop d p key r =
     (if is_not_found r \<and> lastHint p \<noteq> [] then
        (let hint = lastHint p; res = prefetch d (store p) hint in
         case snd res of
           Some e \<Rightarrow> Some (p\<lparr>store := fst res\<rparr>, Inl (Errorf ''prefetch failed: %w'' (Some e)))
         | None \<Rightarrow>
            GetPreimage_loop d (p\<lparr>store := fst res\<rparr>) key
              (Get (kvStore d) (fst res) key))
      else Some (p, r))"

definition GetPreimage ::
  "'s Deps \<Rightarrow> 's Prefetcher \<Rightarrow> Hash \<Rightarrow> ('s Prefetcher \<times> (error + bytes)) option" where
  "GetPreimage d p key = GetPreimage_loop d p key (Get (kvStore d) (store p) key)"

section \<open>The HTTP server\<close>

text \<open>
  What a handler does to its request: a response with a status and a body, or a panic (which
  \<open>net/http\<close> recovers by aborting the connection: the client gets no status at all).
\<close>

datatype http_response = Response nat bytes | Panic

definition string_bytes :: "string \<Rightarrow> bytes" where
  "string_bytes s = map (\<lambda>c. of_nat (of_char c)) s"

definition StatusOK :: nat where "StatusOK = 200"
definition StatusBadRequest :: nat where "StatusBadRequest = 400"
definition StatusNotFound :: nat where "StatusNotFound = 404"

text \<open>
  The handler of \<open>/dehash/\<close>. \<open>keyStr\<close> is the path after the prefix. \<open>key[0] = 2\<close> panics on
  an empty slice. \<open>key[:common.HashLength]\<close> reslices up to the capacity of \<open>key\<close>, which
  \<open>hex.DecodeString\<close> leaves unspecified: \<open>spare\<close> is the content of the backing array past
  the length of \<open>key\<close>, and the expression panics when length and spare together are less
  than 32. \<open>preimageSource\<close> may not return (\<open>None\<close>).
\<close>

definition dehash_handler ::
  "('st \<Rightarrow> Hash \<Rightarrow> ('st \<times> (error + bytes)) option) \<Rightarrow> 'st \<Rightarrow> bytes \<Rightarrow> string
     \<Rightarrow> ('st \<times> http_response) option" where
  "dehash_handler preimageSource st spare keyStr =
     (case hex_DecodeString keyStr of
        Inl e \<Rightarrow> Some (st, Response StatusBadRequest [])
      | Inr key \<Rightarrow>
         (if key = [] then Some (st, Panic)
          else
            (let key' = key[0 := 2] in
             if length key' + length spare < 32 then Some (st, Panic)
             else
               (case preimageSource st (mk_hash (take 32 (key' @ spare))) of
                  None \<Rightarrow> None
                | Some (st', Inl e) \<Rightarrow> Some (st', Response StatusNotFound [])
                | Some (st', Inr val) \<Rightarrow> Some (st', Response StatusOK val)))))"

text \<open>The handler of \<open>/hint/\<close>. \<open>hint\<close> is the (decoded) path after the prefix.\<close>

definition hint_handler ::
  "('st \<Rightarrow> string \<Rightarrow> 'st \<times> error option) \<Rightarrow> 'st \<Rightarrow> string \<Rightarrow> 'st \<times> http_response" where
  "hint_handler hintHandler st hint =
     (if \<not> strings_Contains hint HintL1BlockHeader \<and>
         \<not> strings_Contains hint HintL1Transactions \<and>
         \<not> strings_Contains hint HintL1Receipts \<and>
         \<not> strings_Contains hint HintL1Blob \<and>
         \<not> strings_Contains hint HintL1KZGPointEvaluation
      then (st, Response StatusBadRequest [])
      else
        (case hintHandler st hint of
           (st', Some e) \<Rightarrow> (st', Response StatusBadRequest [])
         | (st', None) \<Rightarrow> (st', Response StatusOK (string_bytes ''ok''))))"

text \<open>
  \<open>PreimageServer\<close> chooses the two functions it hands to \<open>httpServer\<close>: with fetching
  enabled (\<open>cfg.FetchingEnabled()\<close>, a parameter here) the prefetcher's \<open>GetPreimage\<close> and
  \<open>Hint\<close>; offline, the store's \<open>Get\<close> and a handler that ignores the hint.
\<close>

definition preimageSource ::
  "bool \<Rightarrow> 's Deps \<Rightarrow> 's Prefetcher \<Rightarrow> Hash \<Rightarrow> ('s Prefetcher \<times> (error + bytes)) option" where
  "preimageSource fetchingEnabled d =
     (if fetchingEnabled then GetPreimage d
      else (\<lambda>p key. Some (p, Get (kvStore d) (store p) key)))"

definition hintHander :: "bool \<Rightarrow> 's Prefetcher \<Rightarrow> string \<Rightarrow> 's Prefetcher \<times> error option" where
  "hintHander fetchingEnabled = (if fetchingEnabled then Hint else (\<lambda>p hint. (p, None)))"

definition serve_dehash ::
  "bool \<Rightarrow> 's Deps \<Rightarrow> 's Prefetcher \<Rightarrow> bytes \<Rightarrow> string \<Rightarrow> ('s Prefetcher \<times> http_response) option"
  where
  "serve_dehash fetchingEnabled d = dehash_handler (preimageSource fetchingEnabled d)"

definition serve_hint ::
  "bool \<Rightarrow> 's Prefetcher \<Rightarrow> string \<Rightarrow> 's Prefetcher \<times> http_response" where
  "serve_hint fetchingEnabled = hint_handler (hintHander fetchingEnabled)"

section \<open>Notions used to state the properties\<close>

text \<open>
  A store keeps what is put into it: after a \<open>Put\<close> that returns no error, \<open>Get\<close> of that key
  returns the value and \<open>Get\<close> of every other key is as before.
\<close>

definition kv_lawful :: "'s KV \<Rightarrow> bool" where
  "kv_lawful k \<longleftrightarrow>
     (\<forall>s key v s'. Put k s key v = (s', None) \<longrightarrow>
        Get k s' key = Inr v \<and> (\<forall>key'. key' \<noteq> key \<longrightarrow> Get k s' key' = Get k s key'))"

text \<open>A store whose \<open>Put\<close> never returns an error.\<close>

definition kv_put_total :: "'s KV \<Rightarrow> bool" where
  "kv_put_total k \<longleftrightarrow> (\<forall>s key v. snd (Put k s key v) = None)"

text \<open>A list of writes, issued in order and stopped by the first error.\<close>

fun put_all :: "'s KV \<Rightarrow> 's \<Rightarrow> (Hash \<times> bytes) list \<Rightarrow> 's \<times> error option" where
  "put_all k s [] = (s, None)"
| "put_all k s ((key, v) # ps) =
     (case Put k s key v of
        (s', Some e) \<Rightarrow> (s', Some e)
      | (s', None) \<Rightarrow> put_all k s' ps)"

text \<open>What \<open>Get\<close> returns after a list of successful writes, given what it returned before.\<close>

definition after_puts ::
  "(Hash \<times> bytes) list \<Rightarrow> (Hash \<Rightarrow> error + bytes) \<Rightarrow> Hash \<Rightarrow> error + bytes" where
  "after_puts ps g key = (case map_of (rev ps) key of Some v \<Rightarrow> Inr v | None \<Rightarrow> g key)"

text \<open>
  The blob key of field element \<open>i\<close> in the spec's words: the commitment, 24 zero bytes and
  the index as a big-endian 64-bit number.
\<close>

definition spec_blobKey :: "bytes \<Rightarrow> nat \<Rightarrow> bytes" where
  "spec_blobKey C i = C @ replicate 24 0 @ u64_be (of_nat i)"

text \<open>The two writes of the field-element loop at index \<open>i\<close>, and those of a list of indices.\<close>

definition element_puts :: "'s Deps \<Rightarrow> BlobSidecar \<Rightarrow> bytes \<Rightarrow> nat \<Rightarrow> (Hash \<times> bytes) list" where
  "element_puts d sc blobKey i =
     (let bk = BigEndian_PutUint64 blobKey 72 (of_nat i); h = Keccak256Hash d bk
      in [(Keccak256Key h, bk), (BlobKey h, take 32 (drop (i * 32) (Blob sc)))])"

definition blob_puts :: "'s Deps \<Rightarrow> BlobSidecar \<Rightarrow> bytes \<Rightarrow> nat list \<Rightarrow> (Hash \<times> bytes) list" where
  "blob_puts d sc blobKey js = concat (map (element_puts d sc blobKey) js)"

text \<open>
  All writes of a successful blob prefetch, in order: the commitment under the Sha256 key of
  the versioned hash \<open>V\<close>, then the two writes of each field element.
\<close>

definition blob_writes :: "'s Deps \<Rightarrow> Hash \<Rightarrow> BlobSidecar \<Rightarrow> (Hash \<times> bytes) list" where
  "blob_writes d V sc =
     (Sha256Key V, KZGCommitment sc) #
     blob_puts d sc (copy_into (replicate 80 0) 48 (KZGCommitment sc))
       [0..<BlobTxFieldElementsPerBlob]"

text \<open>The keys the spec lists for a blob with versioned hash \<open>V\<close> and commitment \<open>C\<close>.\<close>

definition blob_keys :: "'s Deps \<Rightarrow> Hash \<Rightarrow> bytes \<Rightarrow> Hash set" where
  "blob_keys d V C =
     insert (Sha256Key V)
       ((\<lambda>i. Keccak256Key (Keccak256Hash d (spec_blobKey C i))) ` {..<4096} \<union>
        (\<lambda>i. BlobKey (Keccak256Hash d (spec_blobKey C i))) ` {..<4096})"

text \<open>
  The store before the \<open>n\<close>-th turn of the loop of \<open>GetPreimage\<close>: the result of \<open>n\<close>
  prefetches of the hint.
\<close>

fun retry_store :: "'s Deps \<Rightarrow> string \<Rightarrow> 's \<Rightarrow> nat \<Rightarrow> 's" where
  "retry_store d hint s 0 = s"
| "retry_store d hint s (Suc n) = retry_store d hint (fst (prefetch d s hint)) n"

text \<open>
  In store \<open>s\<close> the loop goes round once more: the key is not found, a hint is recorded and
  its prefetch returns no error.
\<close>

definition retries :: "'s Deps \<Rightarrow> string \<Rightarrow> Hash \<Rightarrow> 's \<Rightarrow> bool" where
  "retries d hint key s \<longleftrightarrow>
     is_not_found (Get (kvStore d) s key) \<and> hint \<noteq> [] \<and> snd (prefetch d s hint) = None"

text \<open>
  What \<open>GetPreimage\<close> returns when the loop is left in store \<open>s\<close>: the result of \<open>Get\<close>
  unless that is \<open>ErrNotFound\<close> under a recorded hint, in which case the prefetch has failed
  and its error is returned wrapped.
\<close>

definition loop_exit ::
  "'s Deps \<Rightarrow> 's Prefetcher \<Rightarrow> Hash \<Rightarrow> 's \<Rightarrow> 's Prefetcher \<times> (error + bytes)" where
  "loop_exit d p key s =
     (if is_not_found (Get (kvStore d) s key) \<and> lastHint p \<noteq> []
      then (p\<lparr>store := fst (prefetch d s (lastHint p))\<rparr>,
            Inl (Errorf ''prefetch failed: %w'' (snd (prefetch d s (lastHint p)))))
      else (p\<lparr>store := s\<rparr>, Get (kvStore d) s key))"

text \<open>The test of the \<open>/hint/\<close> handler: one of the five type strings occurs in the text.\<close>

definition recognised :: "string \<Rightarrow> bool" where
  "recognised hint \<longleftrightarrow>
     strings_Contains hint HintL1BlockHeader \<or>
     strings_Contains hint HintL1Transactions \<or>
     strings_Contains hint HintL1Receipts \<or>
     strings_Contains hint HintL1Blob \<or>
     strings_Contains hint HintL1KZGPointEvaluation"

text \<open>
  A function on stores that amounts to the list of writes \<open>ps\<close> followed by returning \<open>e\<close>,
  whatever the store.
\<close>

definition writes_list ::
  "'s Deps \<Rightarrow> ('s \<Rightarrow> 's \<times> error option) \<Rightarrow> (Hash \<times> bytes) list \<Rightarrow> error option \<Rightarrow> bool" where
  "writes_list d f ps e \<longleftrightarrow> (\<forall>s. f s = (fst (put_all (kvStore d) s ps), e))"

section \<open>A concrete instance\<close>

text \<open>
  Modelled from the spec: the in-memory store (\<open>kvstore.NewMemKV\<close>, not among the sources), a
  mapping from storage key to byte buffer; \<open>get\<close> of an absent key is \<open>ErrNotFound\<close>.
\<close>

definition MemKV :: "(Hash \<rightharpoonup> bytes) KV" where
  "MemKV =
     \<lparr>Get = (\<lambda>m key. case m key of None \<Rightarrow> Inl ErrNotFound | Some v \<Rightarrow> Inr v),
      Put = (\<lambda>m key v. (m(key \<mapsto> v), None))\<rparr>"

text \<open>
  Collaborators for the examples: the in-memory store, an execution client that is down, a
  beacon client that answers every request with the given sidecars, a precompile that
  rejects every input, and in place of Keccak-256 the last 32 bytes of the input (padded
  with zeros on the left).
\<close>

definition last32 :: "bytes \<Rightarrow> Hash" where
  "last32 bs = mk_hash (drop (length bs) (replicate 32 0 @ bs))"

definition example_deps :: "BlobSidecar list \<Rightarrow> (Hash \<rightharpoonup> bytes) Deps" where
  "example_deps scs =
     \<lparr>kvStore = MemKV,
      InfoByHash = (\<lambda>h. Inl (ErrExternal ''connection refused'')),
      HeaderRLP = (\<lambda>h. Inl (ErrExternal ''connection refused'')),
      InfoAndTxsByHash = (\<lambda>h. Inl (ErrExternal ''connection refused'')),
      FetchReceipts = (\<lambda>h. Inl (ErrExternal ''connection refused'')),
      EncodeTransactions = (\<lambda>txs. Inr []),
      EncodeReceipts = (\<lambda>rs. Inr []),
      WriteTrie = (\<lambda>vs. vs),
      GetBlobSidecars = (\<lambda>t hs. Inr scs),
      Keccak256Hash = last32,
      KZGPointEvaluation_Run = (\<lambda>input. Inl (ErrExternal ''invalid input length''))\<rparr>"

definition example_sidecar :: BlobSidecar where
  "example_sidecar = \<lparr>KZGCommitment = replicate 48 7, Blob = replicate 131072 9\<rparr>"

definition example_blob_hint :: string where
  "example_blob_hint = ''l1-blob 0x'' @ concat (replicate 48 ''01'')"

definition example_kzg_hint :: string where
  "example_kzg_hint = ''l1-kzg-point-evaluation 0xdead''"

text \<open>The path of a request for the local key of the L1 head: its 32 bytes in hexadecimal.\<close>

definition example_l1_head_request :: string where
  "example_l1_head_request = ''01'' @ replicate 60 (CHR ''0'') @ ''01''"

section \<open>Basic facts\<close>

lemma length_hash_bytes [simp]: "length (hash_bytes h) = 32"
  using hash_bytes [of h] by simp

lemma hash_bytes_mk_hash [simp]: "length bs = 32 \<Longrightarrow> hash_bytes (mk_hash bs) = bs"
  by (simp add: mk_hash_inverse)

lemma length_u64_be [simp]: "length (u64_be v) = 8"
  by (simp add: u64_be_def)

lemma u64_be_1: "u64_be 1 = [0, 0, 0, 0, 0, 0, 0, 1]"
  by (simp add: u64_be_def)

lemma l1HeadKey_bytes: "hash_bytes l1HeadKey = 1 # replicate 30 0 @ [1]"
  by (simp add: l1HeadKey_def LocalIndexKey_def L1HeadLocalIndex_def LocalKeyType_def
      u64_be_1 replicate_append_same numeral_eq_Suc)

section \<open>The local preimage source\<close>

text \<open>
  C7. \<open>LocalPreimageSource.Get\<close> returns the configured L1 head hash, which has 32 bytes,
  for the local key of index 1 (the tag byte 1, thirty zero bytes and the byte 1), and
  \<open>ErrNotFound\<close> for every other key.
\<close>

theorem LocalPreimageSource_Get_l1_head:
  "LocalPreimageSource_Get config (LocalIndexKey 1) = Inr (hash_bytes (L1Head config))
   \<and> length (hash_bytes (L1Head config)) = 32
   \<and> hash_bytes (LocalIndexKey 1) = 1 # replicate 30 0 @ [1]
   \<and> (\<forall>key. key \<noteq> LocalIndexKey 1 \<longrightarrow> LocalPreimageSource_Get config key = Inl ErrNotFound)"
  using l1HeadKey_bytes
  by (simp add: LocalPreimageSource_Get_def l1HeadKey_def L1HeadLocalIndex_def)

theorem LocalPreimageSource_Get_l1_head_witness:
  "LocalPreimageSource_Get \<lparr>L1Head = mk_hash (replicate 32 7)\<rparr> (mk_hash (replicate 32 0))
     = Inl ErrNotFound
   \<and> mk_hash (replicate 32 0) \<noteq> LocalIndexKey 1"
proof -
  note fact = LocalPreimageSource_Get_l1_head [of "\<lparr>L1Head = mk_hash (replicate 32 7)\<rparr>"]
  have "mk_hash (replicate 32 0) \<noteq> LocalIndexKey 1"
  proof
    assume "mk_hash (replicate 32 0) = LocalIndexKey 1"
    then have "hd (hash_bytes (mk_hash (replicate 32 0))) = hd (hash_bytes (LocalIndexKey 1))"
      by simp
    with fact show False by simp
  qed
  with fact show ?thesis by blast
qed

section \<open>Keys and hint types\<close>

lemma key_tag_PreimageKey [simp]: "key_tag (PreimageKey t h) = t"
  by (simp add: PreimageKey_def key_tag_def)

lemma PreimageKey_neq: "t \<noteq> t' \<Longrightarrow> PreimageKey t h \<noteq> PreimageKey t' h'"
  by (metis key_tag_PreimageKey)

lemma hint_types_distinct:
  "HintL1KZGPointEvaluation \<noteq> HintL1BlockHeader"
  "HintL1KZGPointEvaluation \<noteq> HintL1Transactions"
  "HintL1KZGPointEvaluation \<noteq> HintL1Receipts"
  "HintL1KZGPointEvaluation \<noteq> HintL1Blob"
  "HintL1Blob \<noteq> HintL1BlockHeader"
  "HintL1Blob \<noteq> HintL1Transactions"
  "HintL1Blob \<noteq> HintL1Receipts"
  by (simp_all add: HintL1KZGPointEvaluation_def HintL1BlockHeader_def
      HintL1Transactions_def HintL1Receipts_def HintL1Blob_def)

lemma prefetch_kzg:
  "parseHint hint = Inr (HintL1KZGPointEvaluation, input) \<Longrightarrow>
   prefetch d s hint = prefetch_L1KZGPointEvaluation d s input"
  by (simp add: prefetch_def hint_types_distinct)

lemma prefetch_blob:
  "parseHint hint = Inr (HintL1Blob, hb) \<Longrightarrow> prefetch d s hint = prefetch_L1Blob d s hb"
  by (simp add: prefetch_def hint_types_distinct)

lemma kzg_keys_distinct: "Keccak256Key h \<noteq> KZGPointEvaluationKey h'"
  by (simp add: Keccak256Key_def KZGPointEvaluationKey_def PreimageKey_neq
      Keccak256KeyType_def KZGPointEvaluationKeyType_def)

section \<open>The example instance\<close>

lemma MemKV_lawful: "kv_lawful MemKV"
  by (simp add: kv_lawful_def MemKV_def)

lemma MemKV_put_total: "kv_put_total MemKV"
  by (simp add: kv_put_total_def MemKV_def)

lemma kvStore_example [simp]: "kvStore (example_deps scs) = MemKV"
  by (simp add: example_deps_def)

lemma parse_example_kzg_hint:
  "parseHint example_kzg_hint = Inr (HintL1KZGPointEvaluation, [0xde, 0xad])"
  by (simp add: parseHint_def example_kzg_hint_def HintL1KZGPointEvaluation_def
      hexutil_Decode_def fromHexChar_def)


lemma prefetch_example_kzg:
  "prefetch (example_deps scs) m example_kzg_hint =
     (m(Keccak256Key (last32 [0xde, 0xad]) \<mapsto> [0xde, 0xad],
        KZGPointEvaluationKey (last32 [0xde, 0xad]) \<mapsto> [0]), None)"
  by (simp add: prefetch_kzg [OF parse_example_kzg_hint] prefetch_L1KZGPointEvaluation_def
      example_deps_def MemKV_def kzgPointEvaluationFailure_def Let_def)

lemma Get_MemKV: "Get MemKV m key = (case m key of None \<Rightarrow> Inl ErrNotFound | Some v \<Rightarrow> Inr v)"
  by (simp add: MemKV_def)

lemma example_kzg_hint_nonempty: "example_kzg_hint \<noteq> []"
  by (simp add: example_kzg_hint_def)

lemma zero_key_not_written:
  "mk_hash (replicate 32 0) \<noteq> Keccak256Key h" "mk_hash (replicate 32 0) \<noteq> KZGPointEvaluationKey h"
proof -
  have t: "key_tag (mk_hash (replicate 32 0)) = 0"
    by (simp add: key_tag_def)
  show "mk_hash (replicate 32 0) \<noteq> Keccak256Key h"
    using t by (auto simp: Keccak256Key_def Keccak256KeyType_def)
  show "mk_hash (replicate 32 0) \<noteq> KZGPointEvaluationKey h"
    using t by (auto simp: KZGPointEvaluationKey_def KZGPointEvaluationKeyType_def)
qed

lemma example_retries_forever:
  "key \<noteq> Keccak256Key (last32 [0xde, 0xad]) \<Longrightarrow>
   key \<noteq> KZGPointEvaluationKey (last32 [0xde, 0xad]) \<Longrightarrow>
   m key = None \<Longrightarrow>
   retries (example_deps []) example_kzg_hint key
     (retry_store (example_deps []) example_kzg_hint m n)"
proof (induction n arbitrary: m)
  case 0
  then show ?case
    by (simp add: retries_def Get_MemKV is_not_found_def prefetch_example_kzg
        example_kzg_hint_nonempty)
next
  case (Suc n)
  have "fst (prefetch (example_deps []) m example_kzg_hint) key = None"
    using Suc.prems by (simp add: prefetch_example_kzg)
  from Suc.IH [of "fst (prefetch (example_deps []) m example_kzg_hint)", OF Suc.prems(1,2) this]
  show ?case by simp
qed

section \<open>The loop of GetPreimage\<close>

lemma GetPreimage_loop_stop:
  "\<not> (is_not_found r \<and> lastHint p \<noteq> []) \<Longrightarrow> GetPreimage_loop d p key r = Some (p, r)"
  by (subst GetPreimage_loop.simps) (auto simp: Let_def)

lemma GetPreimage_loop_fail:
  "is_not_found r \<Longrightarrow> lastHint p \<noteq> [] \<Longrightarrow> snd (prefetch d (store p) (lastHint p)) = Some e \<Longrightarrow>
   GetPreimage_loop d p key r =
     Some (p\<lparr>store := fst (prefetch d (store p) (lastHint p))\<rparr>,
           Inl (Errorf ''prefetch failed: %w'' (Some e)))"
  by (subst GetPreimage_loop.simps) (auto simp: Let_def)

lemma GetPreimage_loop_step:
  "is_not_found r \<Longrightarrow> lastHint p \<noteq> [] \<Longrightarrow> snd (prefetch d (store p) (lastHint p)) = None \<Longrightarrow>
   GetPreimage_loop d p key r =
     GetPreimage_loop d (p\<lparr>store := fst (prefetch d (store p) (lastHint p))\<rparr>) key
       (Get (kvStore d) (fst (prefetch d (store p) (lastHint p))) key)"
  by (subst GetPreimage_loop.simps) (auto simp: Let_def)

lemma loop_exit_store [simp]: "loop_exit d (p\<lparr>store := s'\<rparr>) key s = loop_exit d p key s"
  by (simp add: loop_exit_def)

lemma GetPreimage_exit:
  "(\<forall>i<n. retries d (lastHint p) key (retry_store d (lastHint p) (store p) i)) \<Longrightarrow>
   \<not> retries d (lastHint p) key (retry_store d (lastHint p) (store p) n) \<Longrightarrow>
   GetPreimage d p key = Some (loop_exit d p key (retry_store d (lastHint p) (store p) n))"
proof (induction n arbitrary: p)
  case 0
  show ?case
  proof (cases "is_not_found (Get (kvStore d) (store p) key) \<and> lastHint p \<noteq> []")
    case True
    with 0 obtain e where "snd (prefetch d (store p) (lastHint p)) = Some e"
      by (auto simp: retries_def)
    with True show ?thesis
      by (simp add: GetPreimage_def GetPreimage_loop_fail loop_exit_def)
  next
    case False
    then show ?thesis
      by (auto simp: GetPreimage_def GetPreimage_loop_stop loop_exit_def)
  qed
next
  case (Suc n)
  let ?p = "p\<lparr>store := fst (prefetch d (store p) (lastHint p))\<rparr>"
  from Suc.prems(1) have r0: "retries d (lastHint p) key (store p)"
    by (metis retry_store.simps(1) zero_less_Suc)
  have "\<forall>i<n. retries d (lastHint ?p) key (retry_store d (lastHint ?p) (store ?p) i)"
    using Suc.prems(1) by auto
  moreover have "\<not> retries d (lastHint ?p) key (retry_store d (lastHint ?p) (store ?p) n)"
    using Suc.prems(2) by simp
  ultimately have "GetPreimage d ?p key
      = Some (loop_exit d ?p key (retry_store d (lastHint ?p) (store ?p) n))"
    by (rule Suc.IH)
  moreover have "GetPreimage d p key = GetPreimage d ?p key"
    using r0 by (simp add: GetPreimage_def retries_def GetPreimage_loop_step)
  ultimately show ?case by simp
qed

lemma GetPreimage_loop_returns:
  fixes d :: "'s Deps" and p :: "'s Prefetcher"
  assumes ret: "GetPreimage_loop d p key r = Some res"
    and r: "r = Get (kvStore d) (store p) key"
  shows "\<exists>n. \<not> retries d (lastHint p) key (retry_store d (lastHint p) (store p) n)"
proof -
  let ?Q = "\<lambda>(d :: 's Deps) (p :: 's Prefetcher) key r (res :: 's Prefetcher \<times> (error + bytes)).
     r = Get (kvStore d) (store p) key \<longrightarrow>
     (\<exists>n. \<not> retries d (lastHint p) key (retry_store d (lastHint p) (store p) n))"
  have "?Q d p key r res"
  proof (rule GetPreimage_loop.raw_induct [where P = ?Q, OF _ ret], rule impI)
    fix loop :: "'s Deps \<Rightarrow> 's Prefetcher \<Rightarrow> Hash \<Rightarrow> error + bytes
        \<Rightarrow> ('s Prefetcher \<times> (error + bytes)) option"
    fix d :: "'s Deps" and p :: "'s Prefetcher" and key r
    fix res :: "'s Prefetcher \<times> (error + bytes)"
    let ?s' = "fst (prefetch d (store p) (lastHint p))"
    let ?p = "p\<lparr>store := ?s'\<rparr>"
    assume IH: "\<And>d p key r res. loop d p key r = Some res \<Longrightarrow> ?Q d p key r res"
      and body: "(if is_not_found r \<and> lastHint p \<noteq> [] then
          (let hint = lastHint p; res = prefetch d (store p) hint in
           case snd res of
             None \<Rightarrow> loop d (p\<lparr>store := fst res\<rparr>) key (Get (kvStore d) (fst res) key)
           | Some e \<Rightarrow> Some (p\<lparr>store := fst res\<rparr>, Inl (Errorf ''prefetch failed: %w'' (Some e))))
          else Some (p, r)) = Some res"
      and r: "r = Get (kvStore d) (store p) key"
    show "\<exists>n. \<not> retries d (lastHint p) key (retry_store d (lastHint p) (store p) n)"
    proof (cases "retries d (lastHint p) key (store p)")
      case False
      then have "\<not> retries d (lastHint p) key (retry_store d (lastHint p) (store p) 0)"
        by simp
      then show ?thesis by blast
    next
      case True
      with r body have "loop d ?p key (Get (kvStore d) (store ?p) key) = Some res"
        by (simp add: retries_def Let_def)
      from IH [OF this] obtain n where
        "\<not> retries d (lastHint p) key (retry_store d (lastHint p) ?s' n)"
        by auto
      then have "\<not> retries d (lastHint p) key (retry_store d (lastHint p) (store p) (Suc n))"
        by simp
      then show ?thesis by blast
    qed
  qed
  with r show ?thesis by blast
qed

text \<open>
  C1. As stated (the loop of \<open>GetPreimage\<close> cannot run forever) the claim fails: under a
  recorded hint whose prefetch succeeds without producing the requested key, the loop never
  returns. The example is a point-evaluation hint and a key that no prefetch writes.
\<close>

theorem GetPreimage_loops_forever:
  "GetPreimage (example_deps []) \<lparr>lastHint = example_kzg_hint, store = Map.empty\<rparr>
     (mk_hash (replicate 32 0)) = None"
proof (rule ccontr)
  assume "GetPreimage (example_deps []) \<lparr>lastHint = example_kzg_hint, store = Map.empty\<rparr>
     (mk_hash (replicate 32 0)) \<noteq> None"
  then obtain res where
    "GetPreimage_loop (example_deps []) \<lparr>lastHint = example_kzg_hint, store = Map.empty\<rparr>
       (mk_hash (replicate 32 0))
       (Get (kvStore (example_deps []))
          (store \<lparr>lastHint = example_kzg_hint, store = Map.empty\<rparr>) (mk_hash (replicate 32 0)))
     = Some res"
    by (auto simp: GetPreimage_def)
  from GetPreimage_loop_returns [OF this refl] obtain n where
    "\<not> retries (example_deps []) example_kzg_hint (mk_hash (replicate 32 0))
       (retry_store (example_deps []) example_kzg_hint Map.empty n)"
    by auto
  then show False
    using example_retries_forever [of "mk_hash (replicate 32 0)" Map.empty n]
    by (simp add: zero_key_not_written)
qed

text \<open>
  C1, amended. \<open>GetPreimage\<close> returns exactly when, after some number of successful
  prefetches of the recorded hint, the loop is left: \<open>Get\<close> returns something other than
  \<open>ErrNotFound\<close>, or no hint is recorded, or the prefetch returns an error.
\<close>

theorem GetPreimage_returns_iff:
  "(\<exists>res. GetPreimage d p key = Some res) \<longleftrightarrow>
   (\<exists>n. \<not> retries d (lastHint p) key (retry_store d (lastHint p) (store p) n))"
proof
  assume "\<exists>res. GetPreimage d p key = Some res"
  then show "\<exists>n. \<not> retries d (lastHint p) key (retry_store d (lastHint p) (store p) n)"
    unfolding GetPreimage_def by (blast dest: GetPreimage_loop_returns)
next
  let ?R = "\<lambda>n. \<not> retries d (lastHint p) key (retry_store d (lastHint p) (store p) n)"
  assume "\<exists>n. ?R n"
  then have "?R (LEAST n. ?R n)" by (rule LeastI_ex)
  moreover have "\<forall>i<(LEAST n. ?R n). retries d (lastHint p) key (retry_store d (lastHint p) (store p) i)"
    using not_less_Least by blast
  ultimately show "\<exists>res. GetPreimage d p key = Some res"
    using GetPreimage_exit by blast
qed


theorem GetPreimage_returns_iff_witness:
  "(\<exists>res. GetPreimage (example_deps []) \<lparr>lastHint = [], store = Map.empty\<rparr>
       (mk_hash (replicate 32 0)) = Some res)
   \<and> \<not> retries (example_deps []) [] (mk_hash (replicate 32 0))
        (retry_store (example_deps []) [] Map.empty 0)"
proof -
  have n: "\<not> retries (example_deps []) [] (mk_hash (replicate 32 0))
        (retry_store (example_deps []) [] Map.empty 0)"
    by (simp add: retries_def)
  then have "\<exists>n. \<not> retries (example_deps [])
       (lastHint \<lparr>lastHint = [], store = (Map.empty :: Hash \<rightharpoonup> bytes)\<rparr>) (mk_hash (replicate 32 0))
        (retry_store (example_deps []) (lastHint \<lparr>lastHint = [], store = (Map.empty :: Hash \<rightharpoonup> bytes)\<rparr>)
           (store \<lparr>lastHint = [], store = (Map.empty :: Hash \<rightharpoonup> bytes)\<rparr>) n)"
    by (intro exI [of _ 0]) simp
  with GetPreimage_returns_iff [of "example_deps []" "\<lparr>lastHint = [], store = Map.empty\<rparr>"
      "mk_hash (replicate 32 0)"] n
  show ?thesis by blast
qed

text \<open>
  C5. \<open>GetPreimage\<close> first attempts \<open>Get\<close>; while the result is \<open>ErrNotFound\<close> and a hint is
  recorded it prefetches the hint and, when that succeeds, attempts \<open>Get\<close> again. If the
  loop goes round \<open>n\<close> times and is left in the \<open>n\<close>-th store, the result is that of
  \<open>loop_exit\<close> there: the first result of \<open>Get\<close> that is not \<open>ErrNotFound\<close> (or
  \<open>ErrNotFound\<close> itself when no hint is recorded), or the error of the failed prefetch wrapped
  with "prefetch failed".
\<close>

theorem GetPreimage_first_exit:
  assumes "\<forall>i<n. retries d (lastHint p) key (retry_store d (lastHint p) (store p) i)"
    and "\<not> retries d (lastHint p) key (retry_store d (lastHint p) (store p) n)"
  shows "GetPreimage d p key = Some (loop_exit d p key (retry_store d (lastHint p) (store p) n))"
  using assms by (rule GetPreimage_exit)


theorem GetPreimage_first_exit_witness:
  "retries (example_deps []) example_kzg_hint (Keccak256Key (last32 [0xde, 0xad]))
       (retry_store (example_deps []) example_kzg_hint Map.empty 0)
   \<and> \<not> retries (example_deps []) example_kzg_hint (Keccak256Key (last32 [0xde, 0xad]))
       (retry_store (example_deps []) example_kzg_hint Map.empty 1)
   \<and> GetPreimage (example_deps []) \<lparr>lastHint = example_kzg_hint, store = Map.empty\<rparr>
       (Keccak256Key (last32 [0xde, 0xad]))
     = Some (\<lparr>lastHint = example_kzg_hint,
              store = [Keccak256Key (last32 [0xde, 0xad]) \<mapsto> [0xde, 0xad],
                       KZGPointEvaluationKey (last32 [0xde, 0xad]) \<mapsto> [0]]\<rparr>,
             Inr [0xde, 0xad])"
proof -
  let ?d = "example_deps []"
  let ?k = "Keccak256Key (last32 [0xde, 0xad])"
  let ?p = "\<lparr>lastHint = example_kzg_hint, store = (Map.empty :: Hash \<rightharpoonup> bytes)\<rparr>"
  have a: "\<forall>i<1. retries ?d (lastHint ?p) ?k (retry_store ?d (lastHint ?p) (store ?p) i)"
    by (simp add: retries_def Get_MemKV is_not_found_def prefetch_example_kzg
        example_kzg_hint_nonempty)
  have b: "\<not> retries ?d (lastHint ?p) ?k (retry_store ?d (lastHint ?p) (store ?p) 1)"
    by (simp add: retries_def Get_MemKV is_not_found_def prefetch_example_kzg
        kzg_keys_distinct)
  have "loop_exit ?d ?p ?k (retry_store ?d (lastHint ?p) (store ?p) 1)
      = (\<lparr>lastHint = example_kzg_hint,
              store = [?k \<mapsto> [0xde, 0xad],
                       KZGPointEvaluationKey (last32 [0xde, 0xad]) \<mapsto> [0]]\<rparr>,
             Inr [0xde, 0xad])"
    by (simp add: loop_exit_def Get_MemKV is_not_found_def prefetch_example_kzg
        kzg_keys_distinct)
  with GetPreimage_first_exit [OF a b] a b show ?thesis by simp
qed


section \<open>The point-evaluation hint\<close>

text \<open>
  C8. For a point-evaluation hint with payload \<open>input\<close>, on a store that keeps what is put
  and accepts every write, the prefetch succeeds whether the precompile accepts the input or
  not; afterwards the store maps the Keccak256 key of \<open>h = keccak256(input)\<close> to the input
  and the KZG key of \<open>h\<close> to the byte 1 if the precompile succeeded and 0 if it failed.
\<close>

theorem prefetch_kzg_point_evaluation:
  assumes lawful: "kv_lawful (kvStore d)"
    and total: "kv_put_total (kvStore d)"
    and parse: "parseHint hint = Inr (HintL1KZGPointEvaluation, input)"
  shows "\<exists>s'. prefetch d s hint = (s', None)
     \<and> Get (kvStore d) s' (Keccak256Key (Keccak256Hash d input)) = Inr input
     \<and> Get (kvStore d) s' (KZGPointEvaluationKey (Keccak256Hash d input))
         = Inr (case KZGPointEvaluation_Run d input of Inr out \<Rightarrow> [1] | Inl e \<Rightarrow> [0])"
proof -
  let ?h = "Keccak256Hash d input"
  let ?res = "case KZGPointEvaluation_Run d input of
       Inr out \<Rightarrow> kzgPointEvaluationSuccess | Inl e \<Rightarrow> kzgPointEvaluationFailure"
  obtain s1 where p1: "Put (kvStore d) s (Keccak256Key ?h) input = (s1, None)"
    using total by (metis kv_put_total_def prod.collapse)
  obtain s2 where p2: "Put (kvStore d) s1 (KZGPointEvaluationKey ?h) ?res = (s2, None)"
    using total by (metis kv_put_total_def prod.collapse)
  have run: "prefetch d s hint = (s2, None)"
    using p1 p2 by (simp add: prefetch_kzg [OF parse] prefetch_L1KZGPointEvaluation_def)
  have g1: "Get (kvStore d) s1 (Keccak256Key ?h) = Inr input"
    using lawful p1 unfolding kv_lawful_def by blast
  have g2: "Get (kvStore d) s2 (KZGPointEvaluationKey ?h) = Inr ?res"
    and keep: "Get (kvStore d) s2 (Keccak256Key ?h) = Get (kvStore d) s1 (Keccak256Key ?h)"
    using lawful p2 kzg_keys_distinct unfolding kv_lawful_def by blast+
  have "?res = (case KZGPointEvaluation_Run d input of Inr out \<Rightarrow> [1] | Inl e \<Rightarrow> [0])"
    by (simp add: kzgPointEvaluationSuccess_def kzgPointEvaluationFailure_def split: sum.splits)
  with run g1 g2 keep show ?thesis by simp
qed


theorem prefetch_kzg_point_evaluation_witness:
  "kv_lawful (kvStore (example_deps [])) \<and> kv_put_total (kvStore (example_deps []))
   \<and> parseHint example_kzg_hint = Inr (HintL1KZGPointEvaluation, [0xde, 0xad])
   \<and> (\<exists>s'. prefetch (example_deps []) Map.empty example_kzg_hint = (s', None)
        \<and> Get MemKV s' (Keccak256Key (last32 [0xde, 0xad])) = Inr [0xde, 0xad]
        \<and> Get MemKV s' (KZGPointEvaluationKey (last32 [0xde, 0xad])) = Inr [0])"
proof -
  have a: "kv_lawful (kvStore (example_deps []))" "kv_put_total (kvStore (example_deps []))"
    by (simp_all add: MemKV_lawful MemKV_put_total)
  from prefetch_kzg_point_evaluation [OF a parse_example_kzg_hint, of Map.empty]
  have "\<exists>s'. prefetch (example_deps []) Map.empty example_kzg_hint = (s', None)
        \<and> Get MemKV s' (Keccak256Key (last32 [0xde, 0xad])) = Inr [0xde, 0xad]
        \<and> Get MemKV s' (KZGPointEvaluationKey (last32 [0xde, 0xad])) = Inr [0]"
    by (simp add: example_deps_def)
  with a parse_example_kzg_hint show ?thesis by blast
qed


section \<open>The blob hint: failure of the fetch\<close>

lemma parse_example_blob_hint:
  "parseHint example_blob_hint = Inr (HintL1Blob, replicate 48 1)"
  by (simp add: parseHint_def example_blob_hint_def HintL1Blob_def
      hexutil_Decode_def fromHexChar_def numeral_eq_Suc)

text \<open>
  C10. In a blob prefetch, if \<open>GetBlobSidecars\<close> returns an error or a number of sidecars
  other than one, the prefetch returns an error and the store is as before; no \<open>Put\<close> is
  issued, since the outcome is the same with any other store operations in place.
\<close>

theorem prefetch_blob_fetch_failure:
  assumes parse: "parseHint hint = Inr (HintL1Blob, hb)"
    and fail: "(\<exists>e. GetBlobSidecars d (BigEndian_Uint64 (take 8 (drop 40 hb)))
                   [(mk_hash (take 32 hb), BigEndian_Uint64 (take 8 (drop 32 hb)))] = Inl e)
             \<or> (\<exists>scs. GetBlobSidecars d (BigEndian_Uint64 (take 8 (drop 40 hb)))
                   [(mk_hash (take 32 hb), BigEndian_Uint64 (take 8 (drop 32 hb)))] = Inr scs
                  \<and> length scs \<noteq> 1)"
  shows "fst (prefetch d s hint) = s \<and> snd (prefetch d s hint) \<noteq> None
     \<and> prefetch (d\<lparr>kvStore := kv'\<rparr>) s hint = prefetch d s hint"
  using fail
  by (auto simp: prefetch_blob [OF parse] prefetch_L1Blob_def Let_def)

theorem prefetch_blob_fetch_failure_witness:
  "parseHint example_blob_hint = Inr (HintL1Blob, replicate 48 1)
   \<and> GetBlobSidecars (example_deps []) (BigEndian_Uint64 (take 8 (drop 40 (replicate 48 1))))
       [(mk_hash (take 32 (replicate 48 1)), BigEndian_Uint64 (take 8 (drop 32 (replicate 48 1))))]
      = Inr []
   \<and> length ([] :: BlobSidecar list) \<noteq> 1
   \<and> fst (prefetch (example_deps []) Map.empty example_blob_hint) = Map.empty
   \<and> snd (prefetch (example_deps []) Map.empty example_blob_hint) \<noteq> None"
proof -
  have g: "GetBlobSidecars (example_deps []) (BigEndian_Uint64 (take 8 (drop 40 (replicate 48 1))))
       [(mk_hash (take 32 (replicate 48 1)), BigEndian_Uint64 (take 8 (drop 32 (replicate 48 1))))]
      = Inr []"
    by (simp add: example_deps_def)
  then have "(\<exists>e. GetBlobSidecars (example_deps []) (BigEndian_Uint64 (take 8 (drop 40 (replicate 48 1))))
       [(mk_hash (take 32 (replicate 48 1)), BigEndian_Uint64 (take 8 (drop 32 (replicate 48 1))))]
      = Inl e) \<or> (\<exists>scs. GetBlobSidecars (example_deps []) (BigEndian_Uint64 (take 8 (drop 40 (replicate 48 1))))
       [(mk_hash (take 32 (replicate 48 1)), BigEndian_Uint64 (take 8 (drop 32 (replicate 48 1))))]
      = Inr scs \<and> length scs \<noteq> 1)"
    by simp
  from prefetch_blob_fetch_failure [OF parse_example_blob_hint this, of Map.empty] g parse_example_blob_hint
  show ?thesis by simp
qed

section \<open>The HTTP handlers\<close>

lemma hex_zero_key: "hex_DecodeString (replicate 64 (CHR ''0'')) = Inr (0 # replicate 31 0)"
  by (simp add: numeral_eq_Suc fromHexChar_def)

lemma rewritten_zero_key_not_written:
  "mk_hash (2 # replicate 31 0) \<noteq> Keccak256Key (last32 [0xde, 0xad])"
  "mk_hash (2 # replicate 31 0) \<noteq> KZGPointEvaluationKey (last32 [0xde, 0xad])"
proof -
  have a: "last (hash_bytes (mk_hash (2 # replicate 31 0))) = 0"
    by simp
  have b: "last (hash_bytes (Keccak256Key (last32 [0xde, 0xad]))) = 0xad"
    by (simp add: Keccak256Key_def PreimageKey_def last32_def numeral_eq_Suc)
  show "mk_hash (2 # replicate 31 0) \<noteq> Keccak256Key (last32 [0xde, 0xad])"
  proof
    assume "mk_hash (2 # replicate 31 0) = Keccak256Key (last32 [0xde, 0xad])"
    then have "last (hash_bytes (mk_hash (2 # replicate 31 0)))
        = last (hash_bytes (Keccak256Key (last32 [0xde, 0xad])))"
      by (rule arg_cong)
    with a b show False by simp
  qed
  have "key_tag (mk_hash (2 # replicate 31 0)) = 2"
    by (simp add: key_tag_def)
  then show "mk_hash (2 # replicate 31 0) \<noteq> KZGPointEvaluationKey (last32 [0xde, 0xad])"
    by (auto simp: KZGPointEvaluationKey_def KZGPointEvaluationKeyType_def)
qed

lemma example_never_returns:
  assumes "key \<noteq> Keccak256Key (last32 [0xde, 0xad])"
    and "key \<noteq> KZGPointEvaluationKey (last32 [0xde, 0xad])"
  shows "GetPreimage (example_deps []) \<lparr>lastHint = example_kzg_hint, store = Map.empty\<rparr> key = None"
proof (rule ccontr)
  assume "GetPreimage (example_deps []) \<lparr>lastHint = example_kzg_hint, store = Map.empty\<rparr>
     key \<noteq> None"
  then obtain res where
    "GetPreimage_loop (example_deps []) \<lparr>lastHint = example_kzg_hint, store = Map.empty\<rparr>
       key
       (Get (kvStore (example_deps []))
          (store \<lparr>lastHint = example_kzg_hint, store = Map.empty\<rparr>) key)
     = Some res"
    by (auto simp: GetPreimage_def)
  from GetPreimage_loop_returns [OF this refl] obtain n where
    "\<not> retries (example_deps []) example_kzg_hint key
       (retry_store (example_deps []) example_kzg_hint Map.empty n)"
    by auto
  then show False
    using example_retries_forever [OF assms, of Map.empty n] by simp
qed

text \<open>
  The handler of \<open>/dehash/\<close> has no check of the key's length: on the empty key (valid
  hexadecimal) the assignment \<open>key[0] = 2\<close> panics, and the request gets no status.
\<close>

lemma dehash_empty_key_panics:
  "serve_dehash fetchingEnabled d p spare [] = Some (p, Panic)"
  by (simp add: serve_dehash_def dehash_handler_def)

text \<open>
  C3. As stated the claim fails on a miss: with fetching enabled and a recorded hint whose
  prefetch succeeds without producing the key, the handler of \<open>/dehash/\<close> gives no response
  at all (neither 200 nor 404), because \<open>GetPreimage\<close> does not return.
\<close>

theorem dehash_no_response_on_miss:
  "hex_DecodeString (replicate 64 (CHR ''0'')) = Inr (0 # replicate 31 0)
   \<and> serve_dehash True (example_deps []) \<lparr>lastHint = example_kzg_hint, store = Map.empty\<rparr> []
       (replicate 64 (CHR ''0'')) = None"
  by (simp add: hex_zero_key serve_dehash_def dehash_handler_def preimageSource_def
      example_never_returns rewritten_zero_key_not_written)

text \<open>
  C3, amended. The handler of \<open>/dehash/\<close> answers 400 when the key is not valid
  hexadecimal. For a key that decodes to at least 32 bytes it looks up the first 32 bytes
  with the first byte replaced by the tag 2 (Keccak256), and answers 200 with the value when
  the preimage source returns one, 404 when it returns an error, and nothing when it does
  not return. Offline the preimage source is the store's \<open>Get\<close>, which always returns.
\<close>

theorem dehash_response:
  "(\<forall>e. hex_DecodeString keyStr = Inl e \<longrightarrow>
      serve_dehash fetchingEnabled d p spare keyStr = Some (p, Response 400 []))
   \<and> (\<forall>key. hex_DecodeString keyStr = Inr key \<and> 32 \<le> length key \<longrightarrow>
        key_tag (mk_hash (2 # take 31 (tl key))) = Keccak256KeyType
        \<and> serve_dehash fetchingEnabled d p spare keyStr =
           (case preimageSource fetchingEnabled d p (mk_hash (2 # take 31 (tl key))) of
              None \<Rightarrow> None
            | Some (p', Inl e) \<Rightarrow> Some (p', Response 404 [])
            | Some (p', Inr val) \<Rightarrow> Some (p', Response 200 val)))
   \<and> (\<not> fetchingEnabled \<longrightarrow>
        preimageSource fetchingEnabled d p k = Some (p, Get (kvStore d) (store p) k))"
proof (intro conjI allI impI)
  fix e assume "hex_DecodeString keyStr = Inl e"
  then show "serve_dehash fetchingEnabled d p spare keyStr = Some (p, Response 400 [])"
    by (simp add: serve_dehash_def dehash_handler_def StatusBadRequest_def)
next
  fix key assume k: "hex_DecodeString keyStr = Inr key \<and> 32 \<le> length key"
  then have "31 \<le> length key - Suc 0" by arith
  then have len: "length (take 31 (tl key)) = 31" by simp
  then show "key_tag (mk_hash (2 # take 31 (tl key))) = Keccak256KeyType"
    by (simp add: key_tag_def Keccak256KeyType_def)
  from k obtain k0 ks where key: "key = k0 # ks" and ks: "31 \<le> length ks"
    by (cases key) auto
  with k show "serve_dehash fetchingEnabled d p spare keyStr =
           (case preimageSource fetchingEnabled d p (mk_hash (2 # take 31 (tl key))) of
              None \<Rightarrow> None
            | Some (p', Inl e) \<Rightarrow> Some (p', Response 404 [])
            | Some (p', Inr val) \<Rightarrow> Some (p', Response 200 val))"
    by (simp add: serve_dehash_def dehash_handler_def StatusNotFound_def StatusOK_def
        split: option.split sum.split prod.split)
next
  assume "\<not> fetchingEnabled"
  then show "preimageSource fetchingEnabled d p k = Some (p, Get (kvStore d) (store p) k)"
    by (simp add: preimageSource_def)
qed

theorem dehash_response_witness:
  "hex_DecodeString (replicate 64 (CHR ''0'')) = Inr (0 # replicate 31 0)
   \<and> 32 \<le> length (0 # replicate 31 (0 :: byte))
   \<and> serve_dehash False (example_deps []) \<lparr>lastHint = [], store = [mk_hash (2 # replicate 31 0) \<mapsto> [0x68, 0x69]]\<rparr> []
       (replicate 64 (CHR ''0'')) =
      Some (\<lparr>lastHint = [], store = [mk_hash (2 # replicate 31 0) \<mapsto> [0x68, 0x69]]\<rparr>, Response 200 [0x68, 0x69])"
  using dehash_response [of "replicate 64 (CHR ''0'')" False "example_deps []"
      "\<lparr>lastHint = [], store = [mk_hash (2 # replicate 31 0) \<mapsto> [0x68, 0x69]]\<rparr>" "[]"
      "mk_hash (2 # replicate 31 0)"]
  by (simp add: hex_zero_key Get_MemKV)

lemma string_Cut_prefix: "strings_Cut s = Some (b, a) \<Longrightarrow> s = b @ CHR '' '' # a"
  by (induction s arbitrary: b) (auto split: if_splits option.splits)

lemma strings_Contains_append: "strings_Contains (t @ r) t"
proof (cases "t @ r")
  case Nil
  then show ?thesis by simp
next
  case (Cons c cs)
  have "prefix t (t @ r)" by simp
  with Cons show ?thesis by simp
qed

lemma parseHint_type_contained: "parseHint hint = Inr (t, b) \<Longrightarrow> strings_Contains hint t"
  by (auto simp: parseHint_def strings_Contains_append split: option.splits sum.splits
      dest!: string_Cut_prefix)

lemma hintHander_no_error: "hintHander fe p hint = (if fe then p\<lparr>lastHint := hint\<rparr> else p, None)"
  by (simp add: hintHander_def Hint_def)

text \<open>
  C4. As stated the claim fails: the handler of \<open>/hint/\<close> does not look at the hint's type,
  only at whether a type string occurs somewhere in the text. A hint without separator and
  payload, and a hint whose type is none of the five, both get the answer "ok".
\<close>

theorem hint_accepts_malformed:
  "parseHint ''l1-blob'' = Inl (Errorf ''unsupported hint: %s'' None)
   \<and> serve_hint True \<lparr>lastHint = [], store = ()\<rparr> ''l1-blob''
       = (\<lparr>lastHint = ''l1-blob'', store = ()\<rparr>, Response 200 (string_bytes ''ok''))
   \<and> parseHint ''xl1-blobs 0x00'' = Inr (''xl1-blobs'', [0])
   \<and> serve_hint True \<lparr>lastHint = [], store = ()\<rparr> ''xl1-blobs 0x00''
       = (\<lparr>lastHint = ''xl1-blobs 0x00'', store = ()\<rparr>, Response 200 (string_bytes ''ok''))"
  by (simp add: parseHint_def serve_hint_def hint_handler_def hintHander_no_error
      HintL1Blob_def StatusOK_def hexutil_Decode_def fromHexChar_def)

text \<open>
  C4, amended. The handler of \<open>/hint/\<close> answers 400 exactly when none of the five type
  strings occurs in the text of the hint; otherwise it hands the hint on (with fetching
  enabled it becomes the last hint) and answers 200 with the body "ok". Every hint that
  parses and has one of the five types is accepted.
\<close>

theorem hint_response:
  "serve_hint fetchingEnabled p hint =
     (if recognised hint
      then (if fetchingEnabled then p\<lparr>lastHint := hint\<rparr> else p, Response 200 (string_bytes ''ok''))
      else (p, Response 400 []))
   \<and> (\<forall>t b. parseHint hint = Inr (t, b) \<and>
          t \<in> {HintL1BlockHeader, HintL1Transactions, HintL1Receipts, HintL1Blob,
                HintL1KZGPointEvaluation} \<longrightarrow> recognised hint)"
proof -
  have "serve_hint fetchingEnabled p hint =
     (if recognised hint
      then (if fetchingEnabled then p\<lparr>lastHint := hint\<rparr> else p, Response 200 (string_bytes ''ok''))
      else (p, Response 400 []))"
    by (simp add: serve_hint_def hint_handler_def hintHander_no_error recognised_def
      StatusOK_def StatusBadRequest_def)
  moreover have "recognised hint"
    if "parseHint hint = Inr (t, b)" and "t \<in> {HintL1BlockHeader, HintL1Transactions,
      HintL1Receipts, HintL1Blob, HintL1KZGPointEvaluation}" for t b
    using parseHint_type_contained [OF that(1)] that(2) by (auto simp: recognised_def)
  ultimately show ?thesis by blast
qed


theorem hint_response_witness:
  "parseHint example_kzg_hint = Inr (HintL1KZGPointEvaluation, [0xde, 0xad])
   \<and> recognised example_kzg_hint
   \<and> serve_hint True \<lparr>lastHint = [], store = ()\<rparr> example_kzg_hint
       = (\<lparr>lastHint = example_kzg_hint, store = ()\<rparr>, Response 200 (string_bytes ''ok''))
   \<and> \<not> recognised ''unknown 0xdead''
   \<and> serve_hint True \<lparr>lastHint = [], store = ()\<rparr> ''unknown 0xdead''
       = (\<lparr>lastHint = [], store = ()\<rparr>, Response 400 [])"
proof -
  have r: "recognised example_kzg_hint"
    using hint_response [of True "\<lparr>lastHint = [], store = ()\<rparr>" example_kzg_hint]
      parse_example_kzg_hint
    by simp
  have n: "\<not> recognised ''unknown 0xdead''"
    by (simp add: recognised_def HintL1BlockHeader_def HintL1Transactions_def
        HintL1Receipts_def HintL1Blob_def HintL1KZGPointEvaluation_def)
  show ?thesis
    using r n parse_example_kzg_hint
      hint_response [of True "\<lparr>lastHint = [], store = ()\<rparr>" example_kzg_hint]
      hint_response [of True "\<lparr>lastHint = [], store = ()\<rparr>" "''unknown 0xdead''"]
    by simp
qed

section \<open>Local keys\<close>

lemma key_tag_l1HeadKey: "key_tag l1HeadKey = LocalKeyType"
  by (simp add: key_tag_def l1HeadKey_bytes LocalKeyType_def)

lemma hex_l1_head_request:
  "hex_DecodeString example_l1_head_request = Inr (1 # replicate 30 0 @ [1])"
  by (simp add: example_l1_head_request_def numeral_eq_Suc fromHexChar_def)

lemma l1HeadKey_rewritten: "mk_hash (2 # replicate 30 0 @ [1]) \<noteq> l1HeadKey"
proof
  assume "mk_hash (2 # replicate 30 0 @ [1]) = l1HeadKey"
  then have "key_tag (mk_hash (2 # replicate 30 0 @ [1])) = key_tag l1HeadKey"
    by simp
  then show False
    by (simp add: key_tag_l1HeadKey LocalKeyType_def) (simp add: key_tag_def)
qed

text \<open>
  C6. As stated the claim fails: the server never consults the local source. The local
  source answers the local key of the L1 head with the configured hash; the server, asked
  for that key, rewrites its tag and looks up another key in the store, and answers 404
  even when the store holds a value under the local key itself.
\<close>

theorem local_source_not_consulted:
  "hex_DecodeString example_l1_head_request = Inr (hash_bytes l1HeadKey)
   \<and> key_tag l1HeadKey = LocalKeyType
   \<and> LocalPreimageSource_Get \<lparr>L1Head = mk_hash (replicate 32 7)\<rparr> l1HeadKey = Inr (replicate 32 7)
   \<and> serve_dehash True (example_deps []) \<lparr>lastHint = [], store = [l1HeadKey \<mapsto> [0x42]]\<rparr> []
        example_l1_head_request
       = Some (\<lparr>lastHint = [], store = [l1HeadKey \<mapsto> [0x42]]\<rparr>, Response 404 [])
   \<and> serve_dehash False (example_deps []) \<lparr>lastHint = [], store = [l1HeadKey \<mapsto> [0x42]]\<rparr> []
        example_l1_head_request
       = Some (\<lparr>lastHint = [], store = [l1HeadKey \<mapsto> [0x42]]\<rparr>, Response 404 [])"
  by (simp add: hex_l1_head_request l1HeadKey_bytes key_tag_l1HeadKey
      LocalPreimageSource_Get_def serve_dehash_def dehash_handler_def preimageSource_def
      GetPreimage_def GetPreimage_loop_stop Get_MemKV l1HeadKey_rewritten StatusNotFound_def)

text \<open>
  C6, amended. The server does not consult the local source. A request for a 32-byte key
  whose tag is Local reaches the preimage source only through the handler of \<open>/dehash/\<close>,
  which overwrites the tag: the key looked up is the tag 2 (Keccak256) followed by the
  other 31 bytes, a key different from the one requested. The response is that of the
  preimage source for this key, as for a request that names it directly: with fetching
  enabled \<open>GetPreimage\<close> (the store's \<open>Get\<close> with the whole prefetch-and-retry loop),
  offline the store's \<open>Get\<close>; 200 with the value, 404 on an error, nothing when the loop
  does not return.
\<close>

theorem local_key_request_is_keccak_lookup:
  assumes dec: "hex_DecodeString keyStr = Inr key"
    and len: "length key = 32"
    and local: "key_tag (mk_hash key) = LocalKeyType"
  shows "mk_hash (Keccak256KeyType # tl key) \<noteq> mk_hash key
     \<and> key_tag (mk_hash (Keccak256KeyType # tl key)) = Keccak256KeyType
     \<and> serve_dehash fetchingEnabled d p spare keyStr =
         (case (if fetchingEnabled then GetPreimage d p (mk_hash (Keccak256KeyType # tl key))
                else Some (p, Get (kvStore d) (store p) (mk_hash (Keccak256KeyType # tl key)))) of
            None \<Rightarrow> None
          | Some (p', Inl e) \<Rightarrow> Some (p', Response 404 [])
          | Some (p', Inr val) \<Rightarrow> Some (p', Response 200 val))
     \<and> (\<forall>keyStr' spare'. hex_DecodeString keyStr' = Inr (Keccak256KeyType # tl key) \<longrightarrow>
          serve_dehash fetchingEnabled d p spare' keyStr'
            = serve_dehash fetchingEnabled d p spare keyStr)"
proof -
  from len obtain k0 ks where key: "key = k0 # ks" and ks: "length ks = 31"
    by (cases key) auto
  from local len have k0: "k0 = 1"
    by (simp add: key_tag_def key LocalKeyType_def)
  let ?K = "mk_hash (Keccak256KeyType # tl key)"
  have ne: "?K \<noteq> mk_hash key"
    using ks by (simp add: key k0 Keccak256KeyType_def mk_hash_inject)
  have tag: "key_tag ?K = Keccak256KeyType"
    using ks by (simp add: key key_tag_def)
  have lookup: "serve_dehash fetchingEnabled d p sp str =
      (case preimageSource fetchingEnabled d p ?K of
         None \<Rightarrow> None
       | Some (p', Inl e) \<Rightarrow> Some (p', Response 404 [])
       | Some (p', Inr val) \<Rightarrow> Some (p', Response 200 val))"
    if "hex_DecodeString str = Inr (b # ks)" for str sp b
    using that ks
    by (simp add: key serve_dehash_def dehash_handler_def Keccak256KeyType_def
        StatusNotFound_def StatusOK_def split: option.split sum.split prod.split)
  have src: "preimageSource fetchingEnabled d p ?K =
      (if fetchingEnabled then GetPreimage d p ?K
       else Some (p, Get (kvStore d) (store p) ?K))"
    by (simp add: preimageSource_def)
  have resp: "serve_dehash fetchingEnabled d p spare keyStr =
         (case (if fetchingEnabled then GetPreimage d p ?K
                else Some (p, Get (kvStore d) (store p) ?K)) of
            None \<Rightarrow> None
          | Some (p', Inl e) \<Rightarrow> Some (p', Response 404 [])
          | Some (p', Inr val) \<Rightarrow> Some (p', Response 200 val))"
    using lookup [OF dec [unfolded key], of spare] by (simp only: src)
  have same: "serve_dehash fetchingEnabled d p spare' keyStr'
            = serve_dehash fetchingEnabled d p spare keyStr"
    if "hex_DecodeString keyStr' = Inr (Keccak256KeyType # tl key)" for keyStr' spare'
    using lookup [of keyStr' Keccak256KeyType spare'] lookup [of keyStr k0 spare] that dec
    by (simp add: key)
  from ne tag resp same show ?thesis by blast
qed

theorem local_key_request_is_keccak_lookup_witness:
  "hex_DecodeString example_l1_head_request = Inr (1 # replicate 30 0 @ [1])
   \<and> key_tag (mk_hash (1 # replicate 30 0 @ [1])) = LocalKeyType
   \<and> mk_hash (2 # replicate 30 0 @ [1]) \<noteq> mk_hash (1 # replicate 30 0 @ [1])
   \<and> serve_dehash False (example_deps [])
        \<lparr>lastHint = [], store = [mk_hash (2 # replicate 30 0 @ [1]) \<mapsto> [0x68, 0x69]]\<rparr> []
        example_l1_head_request
       = Some (\<lparr>lastHint = [], store = [mk_hash (2 # replicate 30 0 @ [1]) \<mapsto> [0x68, 0x69]]\<rparr>,
               Response 200 [0x68, 0x69])"
proof -
  have len: "length (1 # replicate 30 0 @ [1 :: byte]) = 32"
    by simp
  have local: "key_tag (mk_hash (1 # replicate 30 0 @ [1])) = LocalKeyType"
    by (simp add: key_tag_def LocalKeyType_def)
  from local_key_request_is_keccak_lookup [OF hex_l1_head_request len local, of False
      "example_deps []"
      "\<lparr>lastHint = [], store = [mk_hash (2 # replicate 30 0 @ [1]) \<mapsto> [0x68, 0x69]]\<rparr>" "[]"]
    hex_l1_head_request local
  show ?thesis
    by (simp add: Keccak256KeyType_def Get_MemKV)
qed

section \<open>Lists of writes\<close>

lemma put_all_append:
  "put_all k s (xs @ ys) =
     (case put_all k s xs of (s', Some e) \<Rightarrow> (s', Some e) | (s', None) \<Rightarrow> put_all k s' ys)"
  by (induction xs arbitrary: s) (auto split: prod.splits option.splits)

lemma after_puts_Nil [simp]: "after_puts [] g = g"
  by (simp add: after_puts_def fun_eq_iff)

lemma after_puts_Cons: "after_puts ((key, v) # ps) g = after_puts ps (g(key := Inr v))"
  by (auto simp: after_puts_def fun_eq_iff map_add_def split: option.splits)

lemma after_puts_idem: "after_puts ps (after_puts ps g) = after_puts ps g"
  by (auto simp: after_puts_def fun_eq_iff split: option.splits)

lemma lawful_Put:
  "kv_lawful k \<Longrightarrow> Put k s key v = (s', None) \<Longrightarrow> Get k s' = (Get k s)(key := Inr v)"
  unfolding kv_lawful_def by (auto simp: fun_eq_iff)

lemma put_all_success:
  "kv_lawful k \<Longrightarrow> put_all k s ps = (s', None) \<Longrightarrow> Get k s' = after_puts ps (Get k s)"
proof (induction ps arbitrary: s)
  case Nil
  then show ?case by simp
next
  case (Cons kv ps)
  obtain key v where kv: "kv = (key, v)" by (cases kv)
  obtain s1 e1 where p: "Put k s key v = (s1, e1)" by (cases "Put k s key v")
  with Cons.prems(2) kv have e1: "e1 = None" and rest: "put_all k s1 ps = (s', None)"
    by (auto split: option.splits)
  have "Get k s' = after_puts ps (Get k s1)"
    using Cons.prems(1) rest by (rule Cons.IH)
  also have "Get k s1 = (Get k s)(key := Inr v)"
    using Cons.prems(1) p [unfolded e1] by (rule lawful_Put)
  finally show ?case by (simp only: kv after_puts_Cons)
qed

lemma put_all_total: "kv_put_total k \<Longrightarrow> snd (put_all k s ps) = None"
proof (induction ps arbitrary: s)
  case Nil
  then show ?case by simp
next
  case (Cons kv ps)
  obtain key v where kv: "kv = (key, v)" by (cases kv)
  from Cons.prems have "snd (Put k s key v) = None" by (simp add: kv_put_total_def)
  then obtain s1 where "Put k s key v = (s1, None)" by (cases "Put k s key v") auto
  with Cons show ?case by (simp add: kv)
qed

lemma after_puts_in:
  "distinct (map fst ps) \<Longrightarrow> (key, v) \<in> set ps \<Longrightarrow> after_puts ps g key = Inr v"
  by (simp add: after_puts_def rev_map [symmetric])

lemma after_puts_notin: "key \<notin> fst ` set ps \<Longrightarrow> after_puts ps g key = g key"
  by (simp add: after_puts_def map_of_eq_None_iff [THEN iffD2])

lemma PutUint64_again:
  "length bk = 80 \<Longrightarrow> BigEndian_PutUint64 (BigEndian_PutUint64 bk 72 x) 72 y = BigEndian_PutUint64 bk 72 y"
  by (simp add: BigEndian_PutUint64_def)

lemma length_PutUint64: "length bk = 80 \<Longrightarrow> length (BigEndian_PutUint64 bk 72 x) = 80"
  by (simp add: BigEndian_PutUint64_def)

lemma element_puts_again:
  "length bk = 80 \<Longrightarrow> element_puts d sc (BigEndian_PutUint64 bk 72 x) = element_puts d sc bk"
  by (rule ext) (simp add: element_puts_def PutUint64_again)

lemma blob_puts_again:
  "length bk = 80 \<Longrightarrow> blob_puts d sc (BigEndian_PutUint64 bk 72 x) js = blob_puts d sc bk js"
  by (simp add: blob_puts_def element_puts_again)

lemma blob_loop_puts:
  "length blobKey = 80 \<Longrightarrow>
   blob_loop d sc blobKey s i =
     put_all (kvStore d) s (blob_puts d sc blobKey [i..<BlobTxFieldElementsPerBlob])"
proof (induction d sc blobKey s i rule: blob_loop.induct)
  case (1 d sc blobKey s i)
  show ?case
  proof (cases "i < BlobTxFieldElementsPerBlob")
    case False
    then show ?thesis
      by (subst blob_loop.simps) (simp add: blob_puts_def)
  next
    case True
    let ?bk = "BigEndian_PutUint64 blobKey 72 (of_nat i)"
    let ?h = "Keccak256Hash d ?bk"
    have upt: "[i..<BlobTxFieldElementsPerBlob] = i # [Suc i..<BlobTxFieldElementsPerBlob]"
      using True by (simp add: upt_conv_Cons)
    have len: "length ?bk = 80"
      using "1.prems" by (rule length_PutUint64)
    show ?thesis
    proof (cases "Put (kvStore d) s (Keccak256Key ?h) ?bk")
      case (Pair s1 e1)
      show ?thesis
      proof (cases e1)
        case (Some e)
        with Pair True show ?thesis
          by (subst blob_loop.simps) (simp add: upt blob_puts_def element_puts_def Let_def)
      next
        case None
        note p1 = Pair [unfolded None]
        show ?thesis
        proof (cases "Put (kvStore d) s1 (BlobKey ?h) (take 32 (drop (i * 32) (Blob sc)))")
          case (Pair s2 e2)
          show ?thesis
          proof (cases e2)
            case (Some e)
            with Pair p1 True show ?thesis
              by (subst blob_loop.simps) (simp add: upt blob_puts_def element_puts_def Let_def)
          next
            case None
            note p2 = Pair [unfolded None]
            have "blob_loop d sc ?bk s2 (i + 1) =
                put_all (kvStore d) s2 (blob_puts d sc ?bk [i + 1..<BlobTxFieldElementsPerBlob])"
              using True p1 p2 len by (intro "1.IH") auto
            then have "blob_loop d sc ?bk s2 (i + 1) =
                put_all (kvStore d) s2 (blob_puts d sc blobKey [Suc i..<BlobTxFieldElementsPerBlob])"
              using "1.prems" by (simp add: blob_puts_again)
            with p1 p2 True show ?thesis
              by (subst blob_loop.simps)
                (simp add: upt [symmetric] Let_def,
                 simp add: upt blob_puts_def element_puts_def Let_def)
          qed
        qed
      qed
    qed
  qed
qed




section \<open>Big-endian numbers\<close>

lemma byte_bit:
  fixes a :: uint64
  shows "m < 8 \<Longrightarrow> bit (ucast (drop_bit k a) :: byte) m = bit a (k + m)"
  by (simp add: bit_ucast_iff bit_drop_bit_eq)

lemma byte_eq_bits:
  fixes a b :: uint64
  assumes eq: "(ucast (drop_bit k a) :: byte) = ucast (drop_bit k b)"
    and n: "k \<le> n" "n < k + 8"
  shows "bit a n = bit b n"
proof -
  from n have m: "n - k < 8" and nk: "k + (n - k) = n" by arith+
  from eq have "bit (ucast (drop_bit k a) :: byte) (n - k) = bit (ucast (drop_bit k b) :: byte) (n - k)"
    by simp
  then show ?thesis
    by (simp only: byte_bit [OF m] nk)
qed

lemma u64_be_inj:
  assumes "u64_be a = u64_be b"
  shows "a = b"
proof (rule bit_word_eqI)
  fix n assume "n < LENGTH(64)"
  then have n: "n < 64" by simp
  from assms have e7: "(ucast (drop_bit 56 a) :: byte) = ucast (drop_bit 56 b)"
    and e6: "(ucast (drop_bit 48 a) :: byte) = ucast (drop_bit 48 b)"
    and e5: "(ucast (drop_bit 40 a) :: byte) = ucast (drop_bit 40 b)"
    and e4: "(ucast (drop_bit 32 a) :: byte) = ucast (drop_bit 32 b)"
    and e3: "(ucast (drop_bit 24 a) :: byte) = ucast (drop_bit 24 b)"
    and e2: "(ucast (drop_bit 16 a) :: byte) = ucast (drop_bit 16 b)"
    and e1: "(ucast (drop_bit 8 a) :: byte) = ucast (drop_bit 8 b)"
    and e0: "(ucast (drop_bit 0 a) :: byte) = ucast (drop_bit 0 b)"
    by (simp_all add: u64_be_def)
  from n consider "n < 0 + 8" | "8 \<le> n" "n < 8 + 8" | "16 \<le> n" "n < 16 + 8"
    | "24 \<le> n" "n < 24 + 8" | "32 \<le> n" "n < 32 + 8" | "40 \<le> n" "n < 40 + 8"
    | "48 \<le> n" "n < 48 + 8" | "56 \<le> n" "n < 56 + 8"
    by linarith
  then show "bit a n = bit b n"
  proof cases
    case 1 then show ?thesis by (intro byte_eq_bits [OF e0]) simp
  next
    case 2 then show ?thesis by (intro byte_eq_bits [OF e1])
  next
    case 3 then show ?thesis by (intro byte_eq_bits [OF e2])
  next
    case 4 then show ?thesis by (intro byte_eq_bits [OF e3])
  next
    case 5 then show ?thesis by (intro byte_eq_bits [OF e4])
  next
    case 6 then show ?thesis by (intro byte_eq_bits [OF e5])
  next
    case 7 then show ?thesis by (intro byte_eq_bits [OF e6])
  next
    case 8 then show ?thesis by (intro byte_eq_bits [OF e7])
  qed
qed

lemma of_nat_u64_inj: "i < 4096 \<Longrightarrow> j < 4096 \<Longrightarrow> (of_nat i :: uint64) = of_nat j \<Longrightarrow> i = j"
  by (simp add: word_of_nat_eq_iff take_bit_nat_eq_self)


section \<open>The blob hint: expansion into field elements\<close>

lemma length_copy_into: "length (copy_into (replicate 80 0) 48 C) = 80"
  by (simp add: copy_into_def)

lemma prefetch_L1Blob_puts:
  assumes "length hb = 48"
    and "GetBlobSidecars d (BigEndian_Uint64 (take 8 (drop 40 hb)))
           [(mk_hash (take 32 hb), BigEndian_Uint64 (take 8 (drop 32 hb)))] = Inr [sc]"
  shows "prefetch_L1Blob d s hb = put_all (kvStore d) s (blob_writes d (mk_hash (take 32 hb)) sc)"
  using assms
  by (simp add: prefetch_L1Blob_def blob_writes_def Let_def blob_loop_puts length_copy_into
      split: prod.splits option.splits)

lemma blobKey_spec:
  "length C = 48 \<Longrightarrow>
   BigEndian_PutUint64 (copy_into (replicate 80 0) 48 C) 72 (of_nat i) = spec_blobKey C i"
  by (simp add: BigEndian_PutUint64_def copy_into_def spec_blobKey_def)

lemma element_puts_spec:
  "length (KZGCommitment sc) = 48 \<Longrightarrow>
   element_puts d sc (copy_into (replicate 80 0) 48 (KZGCommitment sc)) i =
     [(Keccak256Key (Keccak256Hash d (spec_blobKey (KZGCommitment sc) i)),
       spec_blobKey (KZGCommitment sc) i),
      (BlobKey (Keccak256Hash d (spec_blobKey (KZGCommitment sc) i)),
       take 32 (drop (i * 32) (Blob sc)))]"
  by (simp add: element_puts_def blobKey_spec Let_def)

lemma PreimageKey_eq_iff:
  "PreimageKey t h = PreimageKey t' h' \<longleftrightarrow> t = t' \<and> tl (hash_bytes h) = tl (hash_bytes h')"
  by (simp add: PreimageKey_def mk_hash_inject)

lemma set_blob_puts:
  "set (blob_puts d sc bk js) = (\<Union>i\<in>set js. set (element_puts d sc bk i))"
  by (simp add: blob_puts_def)

lemma length_blob_puts: "length (blob_puts d sc bk js) = 2 * length js"
  by (induction js) (simp_all add: blob_puts_def element_puts_def Let_def)

lemma keys_blob_puts:
  "length (KZGCommitment sc) = 48 \<Longrightarrow>
   fst ` set (blob_puts d sc (copy_into (replicate 80 0) 48 (KZGCommitment sc)) js) =
     (\<Union>i\<in>set js. {Keccak256Key (Keccak256Hash d (spec_blobKey (KZGCommitment sc) i)),
                     BlobKey (Keccak256Hash d (spec_blobKey (KZGCommitment sc) i))})"
  by (simp add: set_blob_puts element_puts_spec image_UN)

lemma element_keys_neq:
  "Keccak256Key h \<noteq> BlobKey h'" "BlobKey h \<noteq> Keccak256Key h'"
  "Sha256Key h \<noteq> Keccak256Key h'" "Sha256Key h \<noteq> BlobKey h'"
  by (simp_all add: Keccak256Key_def BlobKey_def Sha256Key_def PreimageKey_eq_iff
      Keccak256KeyType_def BlobKeyType_def Sha256KeyType_def)

lemma element_keys_eq:
  "Keccak256Key h = Keccak256Key h' \<longleftrightarrow> tl (hash_bytes h) = tl (hash_bytes h')"
  "BlobKey h = BlobKey h' \<longleftrightarrow> tl (hash_bytes h) = tl (hash_bytes h')"
  by (simp_all add: Keccak256Key_def BlobKey_def PreimageKey_eq_iff)

lemma distinct_blob_puts:
  assumes C: "length (KZGCommitment sc) = 48"
    and inj: "inj_on (\<lambda>i. tl (hash_bytes (Keccak256Hash d (spec_blobKey (KZGCommitment sc) i)))) (set js)"
    and dist: "distinct js"
  shows "distinct (map fst (blob_puts d sc (copy_into (replicate 80 0) 48 (KZGCommitment sc)) js))"
  using inj dist
proof (induction js)
  case Nil
  then show ?case by (simp add: blob_puts_def)
next
  case (Cons j js)
  let ?bk = "copy_into (replicate 80 0) 48 (KZGCommitment sc)"
  let ?h = "\<lambda>i. Keccak256Hash d (spec_blobKey (KZGCommitment sc) i)"
  have IH: "distinct (map fst (blob_puts d sc ?bk js))"
    using Cons by simp
  have other: "tl (hash_bytes (?h i)) \<noteq> tl (hash_bytes (?h j))" if "i \<in> set js" for i
    using Cons.prems that by (auto simp: inj_on_def)
  have fresh: "Keccak256Key (?h j) \<notin> fst ` set (blob_puts d sc ?bk js)"
      "BlobKey (?h j) \<notin> fst ` set (blob_puts d sc ?bk js)"
    using other by (simp_all add: keys_blob_puts [OF C] element_keys_neq element_keys_eq) metis+
  have split: "blob_puts d sc ?bk (j # js) =
      (Keccak256Key (?h j), spec_blobKey (KZGCommitment sc) j) #
      (BlobKey (?h j), take 32 (drop (j * 32) (Blob sc))) # blob_puts d sc ?bk js"
    by (simp add: blob_puts_def element_puts_spec [OF C])
  show ?case
    unfolding split using IH fresh by (simp add: element_keys_neq)
qed

lemma sha_key_fresh:
  assumes C: "length (KZGCommitment sc) = 48"
  shows "Sha256Key V \<notin> fst ` set (blob_puts d sc (copy_into (replicate 80 0) 48 (KZGCommitment sc)) js)"
  by (simp add: keys_blob_puts [OF C] element_keys_neq)

lemma distinct_blob_writes:
  assumes C: "length (KZGCommitment sc) = 48"
    and inj: "inj_on (\<lambda>i. tl (hash_bytes (Keccak256Hash d (spec_blobKey (KZGCommitment sc) i)))) {..<4096}"
  shows "distinct (map fst (blob_writes d V sc))"
proof -
  have "set [0..<BlobTxFieldElementsPerBlob] = {..<4096}"
    by (auto simp: BlobTxFieldElementsPerBlob_def)
  with inj have "inj_on (\<lambda>i. tl (hash_bytes (Keccak256Hash d (spec_blobKey (KZGCommitment sc) i))))
      (set [0..<BlobTxFieldElementsPerBlob])"
    by simp
  from distinct_blob_puts [OF C this] sha_key_fresh [OF C]
  show ?thesis by (simp add: blob_writes_def)
qed

lemma keys_blob_writes:
  assumes C: "length (KZGCommitment sc) = 48"
  shows "fst ` set (blob_writes d V sc) = blob_keys d V (KZGCommitment sc)"
proof -
  have "set [0..<BlobTxFieldElementsPerBlob] = {..<4096}"
    by (auto simp: BlobTxFieldElementsPerBlob_def)
  then have "fst ` set (blob_writes d V sc) =
      insert (Sha256Key V)
        (\<Union>i\<in>{..<4096}. {Keccak256Key (Keccak256Hash d (spec_blobKey (KZGCommitment sc) i)),
                     BlobKey (Keccak256Hash d (spec_blobKey (KZGCommitment sc) i))})"
    by (simp add: blob_writes_def keys_blob_puts [OF C])
  also have "\<dots> = blob_keys d V (KZGCommitment sc)"
    unfolding blob_keys_def by blast
  finally show ?thesis .
qed

lemma length_blob_writes: "length (blob_writes d V sc) = 1 + 4096 * 2"
  by (simp add: blob_writes_def length_blob_puts BlobTxFieldElementsPerBlob_def)

lemma sidecar_wf_slice:
  "sidecar_wf sc \<Longrightarrow> i < 4096 \<Longrightarrow> length (take 32 (drop (i * 32) (Blob sc))) = 32"
  by (simp add: sidecar_wf_def)

lemma last32_blobKey:
  "length C = 48 \<Longrightarrow> hash_bytes (last32 (spec_blobKey C i)) = replicate 24 0 @ u64_be (of_nat i)"
  by (simp add: last32_def spec_blobKey_def)

lemma example_no_collision:
  "inj_on (\<lambda>i. tl (hash_bytes (Keccak256Hash (example_deps scs)
      (spec_blobKey (KZGCommitment example_sidecar) i)))) {..<4096}"
proof (rule inj_onI)
  fix i j :: nat
  assume i: "i \<in> {..<4096}" and j: "j \<in> {..<4096}"
    and eq: "tl (hash_bytes (Keccak256Hash (example_deps scs)
          (spec_blobKey (KZGCommitment example_sidecar) i)))
      = tl (hash_bytes (Keccak256Hash (example_deps scs)
          (spec_blobKey (KZGCommitment example_sidecar) j)))"
  have C: "length (KZGCommitment example_sidecar) = 48"
    by (simp add: example_sidecar_def)
  have k: "Keccak256Hash (example_deps scs) = last32"
    by (simp add: example_deps_def)
  have "replicate 24 (0 :: byte) = 0 # replicate 23 0"
    by (simp add: numeral_eq_Suc)
  with eq have "replicate 23 (0 :: byte) @ u64_be (of_nat i) = replicate 23 0 @ u64_be (of_nat j)"
    by (simp add: k last32_blobKey [OF C])
  then have "u64_be (of_nat i) = u64_be (of_nat j)"
    by simp
  then have "(of_nat i :: uint64) = of_nat j"
    by (rule u64_be_inj)
  with i j show "i = j"
    by (auto dest: of_nat_u64_inj [rotated 2])
qed

lemma example_blob_prefetch_ok:
  "snd (prefetch (example_deps [example_sidecar]) Map.empty example_blob_hint) = None"
proof -
  have "prefetch (example_deps [example_sidecar]) Map.empty example_blob_hint =
      put_all MemKV Map.empty
        (blob_writes (example_deps [example_sidecar]) (mk_hash (take 32 (replicate 48 1)))
           example_sidecar)"
    by (simp add: prefetch_blob [OF parse_example_blob_hint]
        prefetch_L1Blob_puts [where sc = example_sidecar] example_deps_def)
  then show ?thesis
    by (simp add: put_all_total [OF MemKV_put_total])
qed

text \<open>
  C2. After a successful blob prefetch for the versioned hash \<open>V\<close> (the first 32 bytes of
  the hint), with a sidecar of commitment \<open>C\<close> (48 bytes) and blob \<open>B\<close>, on a store that
  keeps what is put: the store maps \<open>Sha256(V)\<close> to \<open>C\<close>; for every \<open>i < 4096\<close>, with
  \<open>blobKey\<close> the commitment, 24 zero bytes and the big-endian index, and \<open>h\<close> its Keccak
  hash, the store maps \<open>Keccak256(h)\<close> to \<open>blobKey\<close> and \<open>Blob(h)\<close> to the 32 bytes of \<open>B\<close>
  from \<open>32 i\<close>; every other key is as before; and these keys are \<open>1 + 4096 * 2\<close> in number.
  The hash is assumed free of collisions on the 4096 blob keys (in the 31 bytes a storage
  key keeps): a collision would make two field elements share a key.
\<close>

theorem prefetch_blob_expansion:
  assumes lawful: "kv_lawful (kvStore d)"
    and parse: "parseHint hint = Inr (HintL1Blob, hb)"
    and len: "length hb = 48"
    and fetch: "GetBlobSidecars d (BigEndian_Uint64 (take 8 (drop 40 hb)))
           [(mk_hash (take 32 hb), BigEndian_Uint64 (take 8 (drop 32 hb)))] = Inr [sc]"
    and wf: "sidecar_wf sc"
    and nocoll: "inj_on (\<lambda>i. tl (hash_bytes (Keccak256Hash d (spec_blobKey (KZGCommitment sc) i))))
           {..<4096}"
    and ok: "prefetch d s hint = (s', None)"
  shows "Get (kvStore d) s' (Sha256Key (mk_hash (take 32 hb))) = Inr (KZGCommitment sc)
     \<and> length (KZGCommitment sc) = 48
     \<and> (\<forall>i<4096.
          Get (kvStore d) s' (Keccak256Key (Keccak256Hash d (spec_blobKey (KZGCommitment sc) i)))
            = Inr (spec_blobKey (KZGCommitment sc) i)
          \<and> Get (kvStore d) s' (BlobKey (Keccak256Hash d (spec_blobKey (KZGCommitment sc) i)))
            = Inr (take 32 (drop (i * 32) (Blob sc)))
          \<and> length (take 32 (drop (i * 32) (Blob sc))) = 32)
     \<and> (\<forall>key. key \<notin> blob_keys d (mk_hash (take 32 hb)) (KZGCommitment sc) \<longrightarrow>
          Get (kvStore d) s' key = Get (kvStore d) s key)
     \<and> card (blob_keys d (mk_hash (take 32 hb)) (KZGCommitment sc)) = 1 + 4096 * 2"
proof -
  let ?V = "mk_hash (take 32 hb)"
  let ?C = "KZGCommitment sc"
  let ?ps = "blob_writes d ?V sc"
  let ?bk = "copy_into (replicate 80 0) 48 ?C"
  from wf have C: "length ?C = 48" by (simp add: sidecar_wf_def)
  have "put_all (kvStore d) s ?ps = (s', None)"
    using ok by (simp add: prefetch_blob [OF parse] prefetch_L1Blob_puts [OF len fetch])
  with lawful have view: "Get (kvStore d) s' = after_puts ?ps (Get (kvStore d) s)"
    by (rule put_all_success)
  have dist: "distinct (map fst ?ps)"
    using C nocoll by (rule distinct_blob_writes)
  have keys: "fst ` set ?ps = blob_keys d ?V ?C"
    using C by (rule keys_blob_writes)
  have sha: "Get (kvStore d) s' (Sha256Key ?V) = Inr ?C"
    unfolding view by (rule after_puts_in [OF dist]) (simp add: blob_writes_def)
  have elems: "Get (kvStore d) s' (Keccak256Key (Keccak256Hash d (spec_blobKey ?C i)))
            = Inr (spec_blobKey ?C i)
          \<and> Get (kvStore d) s' (BlobKey (Keccak256Hash d (spec_blobKey ?C i)))
            = Inr (take 32 (drop (i * 32) (Blob sc)))
          \<and> length (take 32 (drop (i * 32) (Blob sc))) = 32" if i: "i < 4096" for i
  proof -
    from i have "i \<in> set [0..<BlobTxFieldElementsPerBlob]"
      by (simp add: BlobTxFieldElementsPerBlob_def)
    then have "set (element_puts d sc ?bk i) \<subseteq> set ?ps"
      by (auto simp: blob_writes_def set_blob_puts)
    then have "(Keccak256Key (Keccak256Hash d (spec_blobKey ?C i)), spec_blobKey ?C i) \<in> set ?ps"
      and "(BlobKey (Keccak256Hash d (spec_blobKey ?C i)), take 32 (drop (i * 32) (Blob sc)))
           \<in> set ?ps"
      by (simp_all add: element_puts_spec [OF C])
    then show ?thesis
      unfolding view using sidecar_wf_slice [OF wf i] by (simp add: after_puts_in [OF dist])
  qed
  have frame: "Get (kvStore d) s' key = Get (kvStore d) s key"
    if "key \<notin> blob_keys d ?V ?C" for key
    unfolding view using that keys by (simp add: after_puts_notin)
  have "card (blob_keys d ?V ?C) = card (set (map fst ?ps))"
    using keys by simp
  also have "\<dots> = length (map fst ?ps)"
    using dist by (rule distinct_card)
  also have "\<dots> = length ?ps"
    by simp
  finally have card: "card (blob_keys d ?V ?C) = 1 + 4096 * 2"
    by (simp add: length_blob_writes)
  from sha C elems frame card show ?thesis by blast
qed


theorem prefetch_blob_expansion_witness:
  "Get MemKV (fst (prefetch (example_deps [example_sidecar]) Map.empty example_blob_hint))
     (Sha256Key (mk_hash (replicate 32 1))) = Inr (replicate 48 7)
   \<and> Get MemKV (fst (prefetch (example_deps [example_sidecar]) Map.empty example_blob_hint))
       (BlobKey (last32 (spec_blobKey (replicate 48 7) 5))) = Inr (replicate 32 9)
   \<and> card (blob_keys (example_deps [example_sidecar]) (mk_hash (replicate 32 1)) (replicate 48 7))
       = 8193"
proof -
  let ?d = "example_deps [example_sidecar]"
  let ?s' = "fst (prefetch ?d Map.empty example_blob_hint)"
  have lawful: "kv_lawful (kvStore ?d)"
    by (simp add: MemKV_lawful)
  have len: "length (replicate 48 (1 :: byte)) = 48"
    by simp
  have fetch: "GetBlobSidecars ?d (BigEndian_Uint64 (take 8 (drop 40 (replicate 48 1))))
       [(mk_hash (take 32 (replicate 48 1)), BigEndian_Uint64 (take 8 (drop 32 (replicate 48 1))))]
      = Inr [example_sidecar]"
    by (simp add: example_deps_def)
  have wf: "sidecar_wf example_sidecar"
    by (simp add: sidecar_wf_def example_sidecar_def)
  have ok: "prefetch ?d Map.empty example_blob_hint = (?s', None)"
    using example_blob_prefetch_ok by (simp add: prod_eq_iff)
  note fact = prefetch_blob_expansion [OF lawful parse_example_blob_hint len fetch wf example_no_collision ok]
  have five: "(5 :: nat) < 4096" by simp
  from fact have "Get (kvStore ?d) ?s' (BlobKey (Keccak256Hash ?d
        (spec_blobKey (KZGCommitment example_sidecar) 5)))
      = Inr (take 32 (drop (5 * 32) (Blob example_sidecar)))"
    using five by blast
  moreover have "Keccak256Hash ?d = last32"
    by (simp add: example_deps_def)
  ultimately have b: "Get MemKV ?s' (BlobKey (last32 (spec_blobKey (replicate 48 7) 5)))
      = Inr (replicate 32 9)"
    by (simp add: example_sidecar_def)
  from fact b show ?thesis
    by (simp add: example_sidecar_def)
qed


section \<open>Prefetching twice\<close>

lemma put_all_total_eq:
  "kv_put_total k \<Longrightarrow> put_all k s ps = (fst (put_all k s ps), None)"
  using put_all_total [of k s ps] by (simp add: prod_eq_iff)

lemma writes_list_error: "writes_list d (\<lambda>s. (s, e)) [] e"
  by (simp add: writes_list_def)

lemma writes_list_put_all:
  "kv_put_total (kvStore d) \<Longrightarrow> writes_list d (\<lambda>s. put_all (kvStore d) s ps) ps None"
  unfolding writes_list_def by (intro allI put_all_total_eq)

lemma put_all_single: "put_all k s [(key, v)] = Put k s key v"
  by (simp split: prod.splits option.splits)

lemma writes_list_Put:
  "kv_put_total (kvStore d) \<Longrightarrow> writes_list d (\<lambda>s. Put (kvStore d) s key v) [(key, v)] None"
  using writes_list_put_all [of d "[(key, v)]"] by (simp only: put_all_single)

lemma storeTrieNodes_loop_puts:
  "kv_put_total (kvStore d) \<Longrightarrow>
   storeTrieNodes_loop d s nodes =
     (fst (put_all (kvStore d) s (map (\<lambda>n. (Keccak256Key (Keccak256Hash d n), n)) nodes)), None)"
proof (induction nodes arbitrary: s)
  case Nil
  then show ?case by simp
next
  case (Cons node nodes)
  from Cons.prems have "snd (Put (kvStore d) s (Keccak256Key (Keccak256Hash d node)) node) = None"
    by (simp add: kv_put_total_def)
  then obtain s1 where "Put (kvStore d) s (Keccak256Key (Keccak256Hash d node)) node = (s1, None)"
    by (cases "Put (kvStore d) s (Keccak256Key (Keccak256Hash d node)) node") auto
  with Cons show ?case by simp
qed

lemma writes_list_trie:
  "kv_put_total (kvStore d) \<Longrightarrow>
   writes_list d (\<lambda>s. storeTrieNodes d s vs)
     (map (\<lambda>n. (Keccak256Key (Keccak256Hash d n), n)) (WriteTrie d vs)) None"
  by (simp add: writes_list_def storeTrieNodes_def storeTrieNodes_loop_puts)

lemma header_writes:
  assumes "kv_put_total (kvStore d)"
  shows "\<exists>ps e. writes_list d (\<lambda>s. prefetch_L1BlockHeader d s hb) ps e"
proof (cases "length hb \<noteq> 32")
  case True
  then have "writes_list d (\<lambda>s. prefetch_L1BlockHeader d s hb) [] (Some (Errorf ''invalid L1 block hint: %x'' None))"
      by (simp add: writes_list_def prefetch_L1BlockHeader_def)
    then show ?thesis by blast
next
  case len: False
  show ?thesis
  proof (cases "InfoByHash d (mk_hash hb)")
    case (Inl e)
    with len have "writes_list d (\<lambda>s. prefetch_L1BlockHeader d s hb) [] (Some (Errorf ''failed to fetch L1 block %s header: %w'' (Some e)))"
      by (simp add: writes_list_def prefetch_L1BlockHeader_def)
    then show ?thesis by blast
  next
    case (Inr header)
    show ?thesis
    proof (cases "HeaderRLP d header")
      case (Inl e)
      with len Inr have "writes_list d (\<lambda>s. prefetch_L1BlockHeader d s hb) [] (Some (Errorf ''marshall header: %w'' (Some e)))"
      by (simp add: writes_list_def prefetch_L1BlockHeader_def)
    then show ?thesis by blast
    next
      case (Inr data)
      with len \<open>InfoByHash d (mk_hash hb) = Inr header\<close>
      have "(\<lambda>s. prefetch_L1BlockHeader d s hb)
        = (\<lambda>s. Put (kvStore d) s (Keccak256Key (mk_hash hb)) data)"
        by (simp add: prefetch_L1BlockHeader_def)
      with writes_list_Put [OF assms, of "Keccak256Key (mk_hash hb)" data]
      show ?thesis by (intro exI) simp
    qed
  qed
qed

lemma transactions_writes:
  assumes "kv_put_total (kvStore d)"
  shows "\<exists>ps e. writes_list d (\<lambda>s. prefetch_L1Transactions d s hb) ps e"
proof (cases "length hb \<noteq> 32")
  case True
  then have "writes_list d (\<lambda>s. prefetch_L1Transactions d s hb) [] (Some (Errorf ''invalid L1 transactions hint: %x'' None))"
      by (simp add: writes_list_def prefetch_L1Transactions_def)
    then show ?thesis by blast
next
  case len: False
  show ?thesis
  proof (cases "InfoAndTxsByHash d (mk_hash hb)")
    case (Inl e)
    with len have "writes_list d (\<lambda>s. prefetch_L1Transactions d s hb) [] (Some (Errorf ''failed to fetch L1 block %s txs: %w'' (Some e)))"
      by (simp add: writes_list_def prefetch_L1Transactions_def)
    then show ?thesis by blast
  next
    case (Inr res)
    obtain info txs where res: "res = (info, txs)" by (cases res)
    show ?thesis
    proof (cases "EncodeTransactions d txs")
      case (Inl e)
      with len Inr res have "writes_list d (\<lambda>s. prefetch_L1Transactions d s hb) [] (Some e)"
      by (simp add: writes_list_def prefetch_L1Transactions_def storeTransactions_def)
    then show ?thesis by blast
    next
      case (Inr opaqueTxs)
      with len \<open>InfoAndTxsByHash d (mk_hash hb) = Inr res\<close> res
      have "(\<lambda>s. prefetch_L1Transactions d s hb) = (\<lambda>s. storeTrieNodes d s opaqueTxs)"
        by (simp add: prefetch_L1Transactions_def storeTransactions_def)
      with writes_list_trie [OF assms, of opaqueTxs] show ?thesis by (intro exI) simp
    qed
  qed
qed

lemma receipts_writes:
  assumes "kv_put_total (kvStore d)"
  shows "\<exists>ps e. writes_list d (\<lambda>s. prefetch_L1Receipts d s hb) ps e"
proof (cases "length hb \<noteq> 32")
  case True
  then have "writes_list d (\<lambda>s. prefetch_L1Receipts d s hb) [] (Some (Errorf ''invalid L1 receipts hint: %x'' None))"
      by (simp add: writes_list_def prefetch_L1Receipts_def)
    then show ?thesis by blast
next
  case len: False
  show ?thesis
  proof (cases "FetchReceipts d (mk_hash hb)")
    case (Inl e)
    with len have "writes_list d (\<lambda>s. prefetch_L1Receipts d s hb) [] (Some (Errorf ''failed to fetch L1 block %s receipts: %w'' (Some e)))"
      by (simp add: writes_list_def prefetch_L1Receipts_def)
    then show ?thesis by blast
  next
    case (Inr res)
    obtain info receipts where res: "res = (info, receipts)" by (cases res)
    show ?thesis
    proof (cases "EncodeReceipts d receipts")
      case (Inl e)
      with len Inr res have "writes_list d (\<lambda>s. prefetch_L1Receipts d s hb) [] (Some e)"
      by (simp add: writes_list_def prefetch_L1Receipts_def storeReceipts_def)
    then show ?thesis by blast
    next
      case (Inr opaqueReceipts)
      with len \<open>FetchReceipts d (mk_hash hb) = Inr res\<close> res
      have "(\<lambda>s. prefetch_L1Receipts d s hb) = (\<lambda>s. storeTrieNodes d s opaqueReceipts)"
        by (simp add: prefetch_L1Receipts_def storeReceipts_def)
      with writes_list_trie [OF assms, of opaqueReceipts] show ?thesis by (intro exI) simp
    qed
  qed
qed


lemma blob_writes_list:
  assumes "kv_put_total (kvStore d)"
  shows "\<exists>ps e. writes_list d (\<lambda>s. prefetch_L1Blob d s hb) ps e"
proof (cases "length hb \<noteq> 48")
  case True
  then have "writes_list d (\<lambda>s. prefetch_L1Blob d s hb) []
      (Some (Errorf ''invalid blob hint: %x'' None))"
    by (simp add: writes_list_def prefetch_L1Blob_def)
  then show ?thesis by blast
next
  case False
  then have len: "length hb = 48" by simp
  let ?res = "GetBlobSidecars d (BigEndian_Uint64 (take 8 (drop 40 hb)))
           [(mk_hash (take 32 hb), BigEndian_Uint64 (take 8 (drop 32 hb)))]"
  show ?thesis
  proof (cases ?res)
    case (Inl e)
    with len have "writes_list d (\<lambda>s. prefetch_L1Blob d s hb) []
        (Some (Errorf ''failed to fetch blob sidecars for %s %d: %w'' (Some e)))"
      by (simp add: writes_list_def prefetch_L1Blob_def)
    then show ?thesis by blast
  next
    case (Inr scs)
    show ?thesis
    proof (cases "length scs \<noteq> 1")
      case True
      with len Inr have "writes_list d (\<lambda>s. prefetch_L1Blob d s hb) []
          (Some (Errorf ''failed to fetch blob sidecars for %s %d: %w'' None))"
        by (simp add: writes_list_def prefetch_L1Blob_def)
      then show ?thesis by blast
    next
      case False
      then obtain sc where "scs = [sc]"
        by (cases scs) auto
      with Inr have "?res = Inr [sc]" by simp
      from prefetch_L1Blob_puts [OF len this]
      have "(\<lambda>s. prefetch_L1Blob d s hb)
          = (\<lambda>s. put_all (kvStore d) s (blob_writes d (mk_hash (take 32 hb)) sc))"
        by (rule ext)
      with writes_list_put_all [OF assms, of "blob_writes d (mk_hash (take 32 hb)) sc"]
      show ?thesis by (intro exI) simp
    qed
  qed
qed

lemma kzg_puts:
  "prefetch_L1KZGPointEvaluation d s input =
     put_all (kvStore d) s
       [(Keccak256Key (Keccak256Hash d input), input),
        (KZGPointEvaluationKey (Keccak256Hash d input),
         case KZGPointEvaluation_Run d input of
           Inr out \<Rightarrow> kzgPointEvaluationSuccess | Inl e \<Rightarrow> kzgPointEvaluationFailure)]"
  by (simp add: prefetch_L1KZGPointEvaluation_def Let_def split: prod.splits option.splits)

lemma kzg_writes_list:
  assumes "kv_put_total (kvStore d)"
  shows "\<exists>ps e. writes_list d (\<lambda>s. prefetch_L1KZGPointEvaluation d s input) ps e"
proof -
  have "(\<lambda>s. prefetch_L1KZGPointEvaluation d s input) =
     (\<lambda>s. put_all (kvStore d) s
       [(Keccak256Key (Keccak256Hash d input), input),
        (KZGPointEvaluationKey (Keccak256Hash d input),
         case KZGPointEvaluation_Run d input of
           Inr out \<Rightarrow> kzgPointEvaluationSuccess | Inl e \<Rightarrow> kzgPointEvaluationFailure)])"
    by (rule ext) (rule kzg_puts)
  then show ?thesis
    by (simp only:) (intro exI, rule writes_list_put_all [OF assms])
qed

lemma prefetch_writes_list:
  assumes total: "kv_put_total (kvStore d)"
  shows "\<exists>ps e. writes_list d (\<lambda>s. prefetch d s hint) ps e"
proof (cases "parseHint hint")
  case (Inl e)
  then have "writes_list d (\<lambda>s. prefetch d s hint) [] (Some e)"
    by (simp add: writes_list_def prefetch_def)
  then show ?thesis by blast
next
  case (Inr res)
  obtain hintType hintBytes where res: "res = (hintType, hintBytes)" by (cases res)
  note parse = Inr [unfolded res]
  consider "hintType = HintL1BlockHeader"
    | "hintType \<noteq> HintL1BlockHeader" "hintType = HintL1Transactions"
    | "hintType \<noteq> HintL1BlockHeader" "hintType \<noteq> HintL1Transactions"
      "hintType = HintL1Receipts"
    | "hintType \<noteq> HintL1BlockHeader" "hintType \<noteq> HintL1Transactions"
      "hintType \<noteq> HintL1Receipts" "hintType = HintL1Blob"
    | "hintType \<noteq> HintL1BlockHeader" "hintType \<noteq> HintL1Transactions"
      "hintType \<noteq> HintL1Receipts" "hintType \<noteq> HintL1Blob"
      "hintType = HintL1KZGPointEvaluation"
    | "hintType \<noteq> HintL1BlockHeader" "hintType \<noteq> HintL1Transactions"
      "hintType \<noteq> HintL1Receipts" "hintType \<noteq> HintL1Blob"
      "hintType \<noteq> HintL1KZGPointEvaluation"
    by blast
  then show ?thesis
  proof cases
    case 1
    with parse have "(\<lambda>s. prefetch d s hint) = (\<lambda>s. prefetch_L1BlockHeader d s hintBytes)"
      by (simp add: prefetch_def)
    with header_writes [OF total] show ?thesis by simp
  next
    case 2
    with parse have "(\<lambda>s. prefetch d s hint) = (\<lambda>s. prefetch_L1Transactions d s hintBytes)"
      by (simp add: prefetch_def)
    with transactions_writes [OF total] show ?thesis by simp
  next
    case 3
    with parse have "(\<lambda>s. prefetch d s hint) = (\<lambda>s. prefetch_L1Receipts d s hintBytes)"
      by (simp add: prefetch_def)
    with receipts_writes [OF total] show ?thesis by simp
  next
    case 4
    with parse have "(\<lambda>s. prefetch d s hint) = (\<lambda>s. prefetch_L1Blob d s hintBytes)"
      by (simp add: prefetch_def)
    with blob_writes_list [OF total] show ?thesis by simp
  next
    case 5
    with parse have "(\<lambda>s. prefetch d s hint) = (\<lambda>s. prefetch_L1KZGPointEvaluation d s hintBytes)"
      by (simp add: prefetch_def)
    with kzg_writes_list [OF total] show ?thesis by simp
  next
    case 6
    with parse have "writes_list d (\<lambda>s. prefetch d s hint) []
        (Some (Errorf ''unknown hint type: %v'' None))"
      by (simp add: writes_list_def prefetch_def)
    then show ?thesis by blast
  qed
qed

text \<open>
  C9. Prefetch is idempotent. The upstream answers are functions of the request; on a store
  that keeps what is put and accepts every write, prefetching a hint a second time leaves
  \<open>Get\<close> of every key as it was after the first time, and returns the same error, if any.
\<close>

theorem prefetch_idempotent:
  assumes lawful: "kv_lawful (kvStore d)" and total: "kv_put_total (kvStore d)"
  shows "Get (kvStore d) (fst (prefetch d (fst (prefetch d s hint)) hint))
           = Get (kvStore d) (fst (prefetch d s hint))
     \<and> snd (prefetch d (fst (prefetch d s hint)) hint) = snd (prefetch d s hint)"
proof -
  from prefetch_writes_list [OF total] obtain ps e where
    w: "\<And>s. prefetch d s hint = (fst (put_all (kvStore d) s ps), e)"
    unfolding writes_list_def by blast
  let ?s1 = "fst (put_all (kvStore d) s ps)"
  let ?s2 = "fst (put_all (kvStore d) ?s1 ps)"
  have "Get (kvStore d) ?s1 = after_puts ps (Get (kvStore d) s)"
    using lawful put_all_total_eq [OF total] by (rule put_all_success)
  moreover have "Get (kvStore d) ?s2 = after_puts ps (Get (kvStore d) ?s1)"
    using lawful put_all_total_eq [OF total] by (rule put_all_success)
  ultimately have "Get (kvStore d) ?s2 = Get (kvStore d) ?s1"
    by (simp add: after_puts_idem)
  then show ?thesis
    by (simp add: w)
qed

theorem prefetch_idempotent_witness:
  "kv_lawful (kvStore (example_deps [])) \<and> kv_put_total (kvStore (example_deps []))
   \<and> Get MemKV (fst (prefetch (example_deps [])
         (fst (prefetch (example_deps []) Map.empty example_kzg_hint)) example_kzg_hint))
       = Get MemKV (fst (prefetch (example_deps []) Map.empty example_kzg_hint))
   \<and> snd (prefetch (example_deps [])
         (fst (prefetch (example_deps []) Map.empty example_kzg_hint)) example_kzg_hint) = None"
proof -
  have a: "kv_lawful (kvStore (example_deps []))" "kv_put_total (kvStore (example_deps []))"
    by (simp_all add: MemKV_lawful MemKV_put_total)
  from prefetch_idempotent [OF a, of Map.empty example_kzg_hint] a show ?thesis
    by (simp add: prefetch_example_kzg)
qed


end
